theory Spec2Isabelle
  imports Main "HOL-Library.AList"
begin

section \<open>The build-lifecycle coordinator of tools/server/main.go\<close>

text \<open>
  The server keeps one global index \<open>builds\<close> from commit sha to a pointer to a
  \<open>Build\<close>, and hands pointers to the single worker goroutine \<open>processBuilds\<close>
  over the channel \<open>buildsCh\<close>. Since the index and the channel hold pointers, and
  a handler may store a new pointer under a sha whose old \<open>Build\<close> is still waiting
  on the channel, the model has an explicit store of \<open>Build\<close> objects.

  Every call that leaves the coordinator (logging, the check reporting client, docker,
  the board driver, the settle sleep) is appended to a trace, so that what the code did
  and in which order can be read off the final state.
\<close>

subsection \<open>Values\<close>

datatype error = Error string

text \<open>The two run-time panics that main.go can raise by itself.\<close>

datatype panic = NilPointerDereference | SliceBoundsOutOfRange

text \<open>
  \<open>github.CheckSuite\<close> and \<open>github.CheckRun\<close> belong to the go-github library;
  main.go reads them only through \<open>GetHeadSHA\<close>, \<open>GetName\<close> and \<open>GetID\<close>, which
  return the zero value on a nil receiver or a nil field.
\<close>

record CheckSuite =
  cs_head_sha :: string

record CheckRun =
  cr_id :: int
  cr_name :: string
  cr_head_sha :: string

text \<open>
  \<open>type Build struct\<close>. The Go map \<open>runs\<close> is an association list with unique keys
  (written with \<open>AList.update\<close>); the order of the list stands for whichever order
  \<open>range\<close> happens to visit the map in, so a statement about every list is a
  statement about every iteration order.
\<close>

record Build =
  binaryURL :: string
  sha :: string
  suite :: "CheckSuite option"
  runs :: "(string \<times> CheckRun) list"

text \<open>
  \<open>type Run struct\<close>: declared in main.go, used nowhere in it. The field \<open>id\<close>
  is written \<open>id'\<close>.
\<close>

record Run =
  target :: string
  id' :: int
  run :: "CheckRun option"

text \<open>
  Modelled from the spec: the type \<open>Board\<close> is declared in a file that is not part
  of the sources at hand. The spec describes it as a static descriptor (target name,
  display name, device identity, flash and test command); main.go reads the fields
  \<open>target\<close> and \<open>displayname\<close> and calls \<open>flash\<close> and \<open>test\<close>.
\<close>

record Board =
  target :: string
  displayname :: string

text \<open>
  The decoded CircleCI notification. Its type is declared outside main.go; the handler
  reads \<open>Status\<close>, \<open>VCSRevision\<close> and \<open>BuildNum\<close>.
\<close>

record BuildInfo =
  Status :: string
  VCSRevision :: string
  BuildNum :: int

definition debugSkipBinaryInstall :: bool where
  "debugSkipBinaryInstall = True"

definition officialRelease :: string where
  "officialRelease =
     ''https://github.com/tinygo-org/tinygo/releases/download/v0.13.1/tinygo0.13.1.linux-amd64.tar.gz''"

subsection \<open>Calls that leave the coordinator\<close>

datatype arg = S string | I int | E error | B BuildInfo

text \<open>
  Modelled from the spec: \<open>pendingCheckSuite\<close>, \<open>startCheckSuite\<close>,
  \<open>failCheckSuite\<close>, \<open>failCheckRun\<close> and \<open>passCheckRun\<close> are methods of
  \<open>Build\<close> defined in a file that is not part of the sources at hand. The spec
  describes them as fire-and-report calls to the check reporting client, which creates
  and updates the provider's check-suite and check-run objects. Each call is recorded
  with the sha of its receiver and its arguments, and leaves index, store and queue as
  they are.
\<close>

datatype effect =
    Printf string "arg list"
  | Println "arg list"
  | PendingCheckSuite string
  | StartCheckSuite string
  | FailCheckSuite string string
  | FailCheckRun string string string
  | PassCheckRun string string string
  | Exec "string list"
  | Flash Board string
  | Test Board
  | Sleep nat

text \<open>
  What the outside world answers. \<open>getTinygoBinaryURL\<close>, \<open>GetBoard\<close>,
  \<open>Board.flash\<close> and \<open>Board.test\<close> are defined outside main.go and are taken as
  parameters; \<open>combinedOutput\<close> is the answer of
  \<open>exec.Command(...).CombinedOutput()\<close>. A Go result \<open>(out, err)\<close> is a pair whose
  second component is \<open>None\<close> for a nil error. \<open>GetBoard\<close> returns a pointer, so
  \<open>None\<close> is nil.
\<close>

record env =
  getTinygoBinaryURL :: "int \<Rightarrow> error + string"
  GetBoard :: "string \<Rightarrow> Board option"
  combinedOutput :: "string list \<Rightarrow> string \<times> error option"
  flash :: "Board \<Rightarrow> string \<Rightarrow> string \<times> error option"
  test :: "Board \<Rightarrow> string \<times> error option"

subsection \<open>State\<close>

type_synonym addr = nat

text \<open>
  \<open>store\<close> holds the allocated \<open>Build\<close> objects and \<open>fresh\<close> is the next unused
  address. \<open>builds\<close> is the global index (key is sha). \<open>buildsCh\<close> lists the
  pointers sent on the channel and not yet received, oldest first: the channel is
  unbuffered, so these are the sends of handlers waiting for the worker. A pointer is
  dereferenced by looking its address up in the store; the nil pointer is the absent
  address, and an address outside the store, which no handler can produce, is treated
  like nil.
\<close>

record state =
  store :: "addr \<rightharpoonup> Build"
  fresh :: addr
  builds :: "string \<rightharpoonup> addr"
  buildsCh :: "addr list"
  trace :: "effect list"

text \<open>
  A handler or the worker either finishes with a new state, or panics; the state at the
  moment of the panic is kept, since what was done before it stays done.
\<close>

type_synonym result = "(panic \<times> state) + state"

definition emit :: "effect \<Rightarrow> state \<Rightarrow> state" where
  "emit e s = s\<lparr>trace := trace s @ [e]\<rparr>"

definition NewBuild :: "string \<Rightarrow> state \<Rightarrow> addr \<times> state" where
  "NewBuild sh s =
     (fresh s,
      s\<lparr>store := (store s)(fresh s \<mapsto> \<lparr>binaryURL = [], sha = sh, suite = None, runs = []\<rparr>),
        fresh := Suc (fresh s)\<rparr>)"

definition send :: "addr \<Rightarrow> state \<Rightarrow> state" where
  "send a s = s\<lparr>buildsCh := buildsCh s @ [a]\<rparr>"

subsection \<open>processBoardRun\<close>

text \<open>
  The receiver is a \<open>Build\<close> value, not a pointer: the method works on a copy. A nil
  \<open>board\<close> panics at the first statement, which reads \<open>board.displayname\<close>.
\<close>

definition processBoardRun :: "env \<Rightarrow> Build \<Rightarrow> Board option \<Rightarrow> state \<Rightarrow> result" where
  "processBoardRun ev build board s =
     (case board of
        None \<Rightarrow> Inl (NilPointerDereference, s)
      | Some bd \<Rightarrow>
          let s1 = emit (Printf ''Flashing board %s\<newline>'' [S (displayname bd)]) s;
              s2 = emit (Flash bd (sha build)) s1
          in (case flash ev bd (sha build) of
                (flashout, Some err) \<Rightarrow>
                  Inr (emit (FailCheckRun (sha build) (target bd) flashout)
                        (emit (Println [S flashout]) (emit (Println [E err]) s2)))
              | (flashout, None) \<Rightarrow>
                  let s3 = emit (Sleep 2) s2;
                      s4 = emit (Printf ''Running tests on board %s\<newline>'' [S (displayname bd)]) s3;
                      s5 = emit (Test bd) s4
                  in (case test ev bd of
                        (out, Some err) \<Rightarrow>
                          Inr (emit (FailCheckRun (sha build) (target bd) out)
                                (emit (Println [S out]) (emit (Println [E err]) s5)))
                      | (out, None) \<Rightarrow>
                          Inr (emit (PassCheckRun (sha build) (target bd) out) s5))))"

subsection \<open>The handler of /webhooks\<close>

text \<open>
  The request as \<open>github.ValidatePayload\<close> and \<open>github.ParseWebHook\<close> decode it.
\<close>

datatype gh_event = CheckSuiteEvent CheckSuite | CheckRunEvent CheckRun | OtherEvent string

datatype gh_request = InvalidPayload | InvalidEvent | Event gh_event

definition ghwebhook :: "env \<Rightarrow> gh_request \<Rightarrow> state \<Rightarrow> result" where
  "ghwebhook ev req s =
     (case req of
        InvalidPayload \<Rightarrow> Inr (emit (Println [S ''Invalid webhook payload'']) s)
      | InvalidEvent \<Rightarrow> Inr (emit (Println [S ''Invalid webhook event'']) s)
      | Event (CheckSuiteEvent cs) \<Rightarrow>
          (case NewBuild (cs_head_sha cs) s of
             (a, s1) \<Rightarrow>
               Inr (emit (PendingCheckSuite (cs_head_sha cs))
                     (s1\<lparr>builds := (builds s1)(cs_head_sha cs \<mapsto> a)\<rparr>)))
      | Event (CheckRunEvent cr) \<Rightarrow>
          let s1 = emit (Printf ''Github checkrun event for %d, %s''
                          [I (cr_id cr), S (cr_head_sha cr)]) s;
              board = GetBoard ev (cr_name cr)
          in (case builds s1 (cr_head_sha cr) of
                Some a \<Rightarrow>
                  (case store s1 a of
                     None \<Rightarrow> Inl (NilPointerDereference, s1)
                   | Some build \<Rightarrow> processBoardRun ev build board s1)
              | None \<Rightarrow>
                  (case NewBuild (cr_head_sha cr) s1 of
                     (a, s2) \<Rightarrow>
                       (case store s2 a of
                          None \<Rightarrow> Inl (NilPointerDereference, s2)
                        | Some build \<Rightarrow>
                            let s3 = s2\<lparr>store := (store s2)
                                       (a \<mapsto> build\<lparr>runs := AList.update (cr_name cr) cr (runs build)\<rparr>)\<rparr>;
                                s4 = s3\<lparr>builds := (builds s3)(sha build \<mapsto> a)\<rparr>
                            in Inr (send a s4))))
      | Event (OtherEvent d) \<Rightarrow> Inr (emit (Println [S ''Unexpected Github event:'', S d]) s))"

subsection \<open>The handler of /buildhook\<close>

text \<open>The request as \<open>parseBuildInfo\<close> decodes it.\<close>

datatype ci_request = ParseFailed error | Parsed BuildInfo

text \<open>
  \<open>builds[bi.VCSRevision]\<close> on a sha that is not a key gives the nil pointer, and
  the assignment \<open>build.binaryURL = url\<close> through it panics.
\<close>

definition buildhook :: "env \<Rightarrow> ci_request \<Rightarrow> state \<Rightarrow> result" where
  "buildhook ev req s =
     (let s0 = emit (Println [S ''CircleCI buildhook received.'']) s
      in case req of
           ParseFailed err \<Rightarrow> Inr (emit (Println [E err]) s0)
         | Parsed bi \<Rightarrow>
             let s1 = emit (Printf ''Build Info: %+v\<newline>'' [B bi]) s0
             in if Status bi \<noteq> ''success''
                then Inr (emit (Printf ''Not running tests for %s status was %s\<newline>''
                                  [S (VCSRevision bi), S (Status bi)]) s1)
                else (case getTinygoBinaryURL ev (BuildNum bi) of
                        Inl err \<Rightarrow> Inr (emit (Println [E err]) s1)
                      | Inr url \<Rightarrow>
                          (case builds s1 (VCSRevision bi) of
                             None \<Rightarrow> Inl (NilPointerDereference, s1)
                           | Some a \<Rightarrow>
                               (case store s1 a of
                                  None \<Rightarrow> Inl (NilPointerDereference, s1)
                                | Some build \<Rightarrow>
                                    Inr (send a
                                          (s1\<lparr>store := (store s1)(a \<mapsto> build\<lparr>binaryURL := url\<rparr>)\<rparr>))))))"

subsection \<open>The worker\<close>

text \<open>
  \<open>sha[:7]\<close> panics when the sha is shorter than 7 bytes. The function returns the
  error of the docker command, or \<open>None\<close> for nil.
\<close>

definition buildDocker :: "env \<Rightarrow> string \<Rightarrow> string \<Rightarrow> state \<Rightarrow> (panic \<times> state) + (error option \<times> state)" where
  "buildDocker ev url sh s =
     (let buildarg = ''TINYGO_DOWNLOAD_URL='' @ url
      in if length sh < 7 then Inl (SliceBoundsOutOfRange, s)
         else
           let buildtag = ''tinygohci:'' @ take 7 sh;
               argv = [''docker'', ''build'', ''-t'', buildtag,
                       ''-f'', ''tools/docker/Dockerfile'', ''--build-arg'', buildarg, ''.''];
               s1 = emit (Exec argv) s
           in (case combinedOutput ev argv of
                 (out, Some err) \<Rightarrow>
                   Inr (Some err, emit (Println [S out]) (emit (Println [E err]) s1))
               | (out, None) \<Rightarrow> Inr (None, s1)))"

text \<open>The loop \<open>for _, run := range build.runs\<close>, over the runs in the order visited.\<close>

fun range_runs :: "env \<Rightarrow> Build \<Rightarrow> CheckRun list \<Rightarrow> state \<Rightarrow> result" where
  "range_runs ev build [] s = Inr s"
| "range_runs ev build (r # rs) s =
     (case processBoardRun ev build (GetBoard ev (cr_name r)) s of
        Inl p \<Rightarrow> Inl p
      | Inr s' \<Rightarrow> range_runs ev build rs s')"

text \<open>
  The body of the worker's loop for one received pointer \<open>a\<close>. The \<open>continue\<close>
  after a failed docker build ends the iteration without touching the runs.
\<close>

definition processBuild :: "env \<Rightarrow> addr \<Rightarrow> state \<Rightarrow> result" where
  "processBuild ev a s =
     (case store s a of
        None \<Rightarrow> Inl (NilPointerDereference, s)
      | Some build \<Rightarrow>
          let s1 = emit (Printf ''Starting tests for commit %s\<newline>'' [S (sha build)]) s;
              s2 = emit (StartCheckSuite (sha build)) s1;
              url = (if \<not> debugSkipBinaryInstall then binaryURL build else officialRelease);
              s3 = emit (Printf ''Building docker image using TinyGo from %s\<newline>'' [S url]) s2
          in (case buildDocker ev url (sha build) s3 of
                Inl p \<Rightarrow> Inl p
              | Inr (Some err, s4) \<Rightarrow>
                  Inr (emit (FailCheckSuite (sha build) ''docker build failed'')
                        (emit (Println [E err]) s4))
              | Inr (None, s4) \<Rightarrow>
                  let s5 = emit (Printf ''Running checks for commit %s\<newline>'' [S (sha build)]) s4
                  in range_runs ev build (map snd (runs build)) s5))"

text \<open>
  \<open>processBuilds\<close> never returns: it receives, runs the body, and receives again.
  The model runs at most \<open>n\<close> iterations; on an empty channel the worker waits, which
  leaves the state as it is. A panic in the worker goroutine ends the process.
\<close>

fun processBuilds :: "env \<Rightarrow> nat \<Rightarrow> state \<Rightarrow> result" where
  "processBuilds ev 0 s = Inr s"
| "processBuilds ev (Suc n) s =
     (case buildsCh s of
        [] \<Rightarrow> Inr s
      | a # q \<Rightarrow>
          (case processBuild ev a (s\<lparr>buildsCh := q\<rparr>) of
             Inl p \<Rightarrow> Inl p
           | Inr s' \<Rightarrow> processBuilds ev n s'))"

text \<open>The state after \<open>builds = make(map[string]*Build)\<close> and \<open>make(chan *Build)\<close>.\<close>

definition init :: state where
  "init = \<lparr>store = Map.empty, fresh = 0, builds = Map.empty, buildsCh = [], trace = []\<rparr>"

subsection \<open>Serving a sequence of requests\<close>

text \<open>The state a handler or the worker leaves behind, and the panic it raised, if any.\<close>

definition final :: "result \<Rightarrow> state" where
  "final r = (case r of Inl (p, s) \<Rightarrow> s | Inr s \<Rightarrow> s)"

definition panic_of :: "result \<Rightarrow> panic option" where
  "panic_of r = (case r of Inl (p, s) \<Rightarrow> Some p | Inr s \<Rightarrow> None)"

text \<open>
  \<open>serve\<close> is the sequential schedule: each request is served to its end, and each
  iteration of the worker is run to its end, before the next one starts. It is used to
  build the concrete states of the scenarios below. The goroutines of the program are
  interleaved; that is \<open>steps\<close>, further down, and every statement about all runs of
  the program is made there. The net/http server recovers the panic of a handler and
  goes on serving, so the next request starts from the state the panicking handler
  left; a panic of the worker goroutine ends the process.
\<close>

datatype event = Webhook gh_request | Buildhook ci_request | Worker

fun serve :: "env \<Rightarrow> event list \<Rightarrow> state \<Rightarrow> result" where
  "serve ev [] s = Inr s"
| "serve ev (Webhook r # es) s = serve ev es (final (ghwebhook ev r s))"
| "serve ev (Buildhook r # es) s = serve ev es (final (buildhook ev r s))"
| "serve ev (Worker # es) s =
     (case processBuilds ev 1 s of Inl p \<Rightarrow> Inl p | Inr s' \<Rightarrow> serve ev es s')"

subsection \<open>The goroutines, step by step\<close>

text \<open>
  \<open>main\<close> starts the worker once (\<open>go processBuilds(buildsCh)\<close>), and net/http
  serves every request in a goroutine of its own. The goroutines are interleaved at
  their blocking calls: the docker command, \<open>flash\<close>, the settle sleep and \<open>test\<close>.
  What a goroutine does between two of them is one step. A handler that ends in a send
  on the channel has nothing left to do once the worker receives, so its part up to the
  send is one step and the pending send is its entry in \<open>buildsCh\<close>.

  A call of \<open>processBoardRun\<close> that has got past its first statement is a
  \<open>cycle\<close>: the copy of the \<open>Build\<close> it was called on, the board, and the
  blocking call it is in.
\<close>

datatype phase = InFlash | InSleep | InTest

record cycle =
  of_build :: Build
  on_board :: Board
  at_phase :: phase

text \<open>\<open>processBoardRun\<close> up to the call of \<open>flash\<close>.\<close>

definition begin_cycle :: "env \<Rightarrow> Build \<Rightarrow> Board option \<Rightarrow> state \<Rightarrow> (panic \<times> state) + (cycle \<times> state)" where
  "begin_cycle ev build board s =
     (case board of
        None \<Rightarrow> Inl (NilPointerDereference, s)
      | Some bd \<Rightarrow>
          Inr (\<lparr>of_build = build, on_board = bd, at_phase = InFlash\<rparr>,
               emit (Flash bd (sha build))
                 (emit (Printf ''Flashing board %s\<newline>'' [S (displayname bd)]) s)))"

text \<open>
  \<open>processBoardRun\<close> from the return of one blocking call to the next one, or to
  its own return (\<open>None\<close>).
\<close>

definition resume_cycle :: "env \<Rightarrow> cycle \<Rightarrow> state \<Rightarrow> cycle option \<times> state" where
  "resume_cycle ev cy s =
     (let build = of_build cy; bd = on_board cy
      in case at_phase cy of
           InFlash \<Rightarrow>
             (case flash ev bd (sha build) of
                (flashout, Some err) \<Rightarrow>
                  (None, emit (FailCheckRun (sha build) (target bd) flashout)
                           (emit (Println [S flashout]) (emit (Println [E err]) s)))
              | (flashout, None) \<Rightarrow> (Some (cy\<lparr>at_phase := InSleep\<rparr>), emit (Sleep 2) s))
         | InSleep \<Rightarrow>
             (Some (cy\<lparr>at_phase := InTest\<rparr>),
              emit (Test bd) (emit (Printf ''Running tests on board %s\<newline>'' [S (displayname bd)]) s))
         | InTest \<Rightarrow>
             (case test ev bd of
                (out, Some err) \<Rightarrow>
                  (None, emit (FailCheckRun (sha build) (target bd) out)
                           (emit (Println [S out]) (emit (Println [E err]) s)))
              | (out, None) \<Rightarrow> (None, emit (PassCheckRun (sha build) (target bd) out) s)))"

text \<open>
  Where the worker is: waiting to receive, inside the docker command for the
  \<open>Build\<close> at an address, in the loop over its runs with the runs still to visit,
  inside a cycle of that loop, or dead after a panic.
\<close>

datatype position =
    Receiving
  | InDocker addr "string list"
  | InRuns addr "CheckRun list"
  | InCycle addr "CheckRun list" cycle
  | Crashed panic

text \<open>The docker commands that were started and that have returned, in order.\<close>

datatype docker_event = Started addr | Returned addr

text \<open>
  The running program: the shared state, the position of the worker, the cycles that
  handlers of re-run requests are in, and the log of the docker commands.
\<close>

record server =
  shared :: state
  worker :: position
  inline :: "cycle list"
  dockerlog :: "docker_event list"

text \<open>One step of \<open>processBuilds\<close>. Receiving on an empty channel is no step.\<close>

definition worker_step :: "env \<Rightarrow> server \<Rightarrow> server" where
  "worker_step ev c =
     (case worker c of
        Crashed p \<Rightarrow> c
      | Receiving \<Rightarrow>
          (case buildsCh (shared c) of
             [] \<Rightarrow> c
           | a # q \<Rightarrow>
               (let s = (shared c)\<lparr>buildsCh := q\<rparr>
                in case store s a of
                     None \<Rightarrow> c\<lparr>shared := s, worker := Crashed NilPointerDereference\<rparr>
                   | Some build \<Rightarrow>
                       let s1 = emit (Printf ''Starting tests for commit %s\<newline>'' [S (sha build)]) s;
                           s2 = emit (StartCheckSuite (sha build)) s1;
                           url = (if \<not> debugSkipBinaryInstall then binaryURL build else officialRelease);
                           s3 = emit (Printf ''Building docker image using TinyGo from %s\<newline>'' [S url]) s2;
                           buildarg = ''TINYGO_DOWNLOAD_URL='' @ url
                       in if length (sha build) < 7
                          then c\<lparr>shared := s3, worker := Crashed SliceBoundsOutOfRange\<rparr>
                          else
                            let buildtag = ''tinygohci:'' @ take 7 (sha build);
                                argv = [''docker'', ''build'', ''-t'', buildtag,
                                        ''-f'', ''tools/docker/Dockerfile'', ''--build-arg'', buildarg, ''.'']
                            in c\<lparr>shared := emit (Exec argv) s3,
                                 worker := InDocker a argv,
                                 dockerlog := dockerlog c @ [Started a]\<rparr>))
      | InDocker a argv \<Rightarrow>
          (case store (shared c) a of
             None \<Rightarrow> c\<lparr>worker := Crashed NilPointerDereference,
                        dockerlog := dockerlog c @ [Returned a]\<rparr>
           | Some build \<Rightarrow>
               (case combinedOutput ev argv of
                  (out, Some err) \<Rightarrow>
                    c\<lparr>shared := emit (FailCheckSuite (sha build) ''docker build failed'')
                                  (emit (Println [E err])
                                    (emit (Println [S out]) (emit (Println [E err]) (shared c)))),
                      worker := Receiving,
                      dockerlog := dockerlog c @ [Returned a]\<rparr>
                | (out, None) \<Rightarrow>
                    c\<lparr>shared := emit (Printf ''Running checks for commit %s\<newline>'' [S (sha build)])
                                  (shared c),
                      worker := InRuns a (map snd (runs build)),
                      dockerlog := dockerlog c @ [Returned a]\<rparr>))
      | InRuns a rs \<Rightarrow>
          (case rs of
             [] \<Rightarrow> c\<lparr>worker := Receiving\<rparr>
           | r # rs' \<Rightarrow>
               (case store (shared c) a of
                  None \<Rightarrow> c\<lparr>worker := Crashed NilPointerDereference\<rparr>
                | Some build \<Rightarrow>
                    (case begin_cycle ev build (GetBoard ev (cr_name r)) (shared c) of
                       Inl (p, s) \<Rightarrow> c\<lparr>shared := s, worker := Crashed p\<rparr>
                     | Inr (cy, s) \<Rightarrow> c\<lparr>shared := s, worker := InCycle a rs' cy\<rparr>)))
      | InCycle a rs cy \<Rightarrow>
          (case resume_cycle ev cy (shared c) of
             (None, s) \<Rightarrow> c\<lparr>shared := s, worker := InRuns a rs\<rparr>
           | (Some cy', s) \<Rightarrow> c\<lparr>shared := s, worker := InCycle a rs cy'\<rparr>))"

text \<open>
  A request to /webhooks. The handler of a re-run request for a known sha goes into
  \<open>processBoardRun\<close> in its own goroutine and stays there as a cycle; every other
  request is served in one step, by \<open>ghwebhook\<close>. A handler's panic is recovered.
\<close>

definition deliver_gh :: "env \<Rightarrow> gh_request \<Rightarrow> server \<Rightarrow> server" where
  "deliver_gh ev req c =
     (case req of
        Event (CheckRunEvent cr) \<Rightarrow>
          (let s1 = emit (Printf ''Github checkrun event for %d, %s''
                           [I (cr_id cr), S (cr_head_sha cr)]) (shared c);
               board = GetBoard ev (cr_name cr)
           in case builds s1 (cr_head_sha cr) of
                Some a \<Rightarrow>
                  (case store s1 a of
                     None \<Rightarrow> c\<lparr>shared := s1\<rparr>
                   | Some build \<Rightarrow>
                       (case begin_cycle ev build board s1 of
                          Inl (p, s) \<Rightarrow> c\<lparr>shared := s\<rparr>
                        | Inr (cy, s) \<Rightarrow> c\<lparr>shared := s, inline := inline c @ [cy]\<rparr>))
              | None \<Rightarrow> c\<lparr>shared := final (ghwebhook ev req (shared c))\<rparr>)
      | _ \<Rightarrow> c\<lparr>shared := final (ghwebhook ev req (shared c))\<rparr>)"

text \<open>A request to /buildhook: the handler makes no blocking call before its send.\<close>

definition deliver_ci :: "env \<Rightarrow> ci_request \<Rightarrow> server \<Rightarrow> server" where
  "deliver_ci ev req c = c\<lparr>shared := final (buildhook ev req (shared c))\<rparr>"

text \<open>One step of the \<open>i\<close>-th cycle that a handler is in.\<close>

definition handler_step :: "env \<Rightarrow> nat \<Rightarrow> server \<Rightarrow> server" where
  "handler_step ev i c =
     (if i < length (inline c)
      then (case resume_cycle ev (inline c ! i) (shared c) of
              (None, s) \<Rightarrow> c\<lparr>shared := s, inline := take i (inline c) @ drop (Suc i) (inline c)\<rparr>
            | (Some cy', s) \<Rightarrow> c\<lparr>shared := s, inline := (inline c)[i := cy']\<rparr>)
      else c)"

text \<open>
  What happens next is the scheduler's and the transport's choice. Once the worker has
  panicked the process is gone and nothing happens any more.
\<close>

datatype action = Gh gh_request | Ci ci_request | WorkerStep | HandlerStep nat

definition step :: "env \<Rightarrow> action \<Rightarrow> server \<Rightarrow> server" where
  "step ev act c =
     (case worker c of
        Crashed p \<Rightarrow> c
      | _ \<Rightarrow>
          (case act of
             Gh req \<Rightarrow> deliver_gh ev req c
           | Ci req \<Rightarrow> deliver_ci ev req c
           | WorkerStep \<Rightarrow> worker_step ev c
           | HandlerStep i \<Rightarrow> handler_step ev i c))"

fun steps :: "env \<Rightarrow> action list \<Rightarrow> server \<Rightarrow> server" where
  "steps ev [] c = c"
| "steps ev (act # acts) c = steps ev acts (step ev act c)"


fun alive :: "position \<Rightarrow> bool" where
  "alive (Crashed p) = False"
| "alive w = True"


subsection \<open>A test bench\<close>

text \<open>
  Two boards, as in the scenarios of the specification: the ItsyBitsy-M4 flashes and
  passes, the Nano33 fails to flash. Commit \<open>abc1234def\<close> is the one under test.
\<close>

definition itsybitsy :: Board where
  "itsybitsy = \<lparr>target = ''itsybitsy-m4'', displayname = ''Adafruit ItsyBitsy-M4''\<rparr>"

definition nano33 :: Board where
  "nano33 = \<lparr>target = ''arduino-nano33'', displayname = ''Arduino Nano33-IoT''\<rparr>"

definition bench :: env where
  "bench = \<lparr>getTinygoBinaryURL = (\<lambda>n. Inr ''http://x/bin.tgz''),
            GetBoard = (\<lambda>t. if t = ''itsybitsy-m4'' then Some itsybitsy
                            else if t = ''arduino-nano33'' then Some nano33 else None),
            combinedOutput = (\<lambda>argv. (''Successfully built'', None)),
            flash = (\<lambda>bd sh. if target bd = ''arduino-nano33''
                               then (''No device found'', Some (Error ''exit status 1''))
                               else (''flashed'', None)),
            test = (\<lambda>bd. (''Tests complete.'', None))\<rparr>"

text \<open>The same bench with a docker build that fails.\<close>

definition broken_docker :: env where
  "broken_docker =
     bench\<lparr>combinedOutput := (\<lambda>argv. (''no space left on device'', Some (Error ''exit status 1'')))\<rparr>"

definition run_itsy :: CheckRun where
  "run_itsy = \<lparr>cr_id = 41, cr_name = ''itsybitsy-m4'', cr_head_sha = ''abc1234def''\<rparr>"

definition run_nano :: CheckRun where
  "run_nano = \<lparr>cr_id = 42, cr_name = ''arduino-nano33'', cr_head_sha = ''abc1234def''\<rparr>"

definition commit :: event where
  "commit = Webhook (Event (CheckSuiteEvent \<lparr>cs_head_sha = ''abc1234def''\<rparr>))"

definition rerun_itsy :: event where
  "rerun_itsy = Webhook (Event (CheckRunEvent run_itsy))"

definition ci_ok :: BuildInfo where
  "ci_ok = \<lparr>Status = ''success'', VCSRevision = ''abc1234def'', BuildNum = 7\<rparr>"

definition ci_failed :: BuildInfo where
  "ci_failed = \<lparr>Status = ''failed'', VCSRevision = ''abc1234def'', BuildNum = 7\<rparr>"

definition artifact :: event where
  "artifact = Buildhook (Parsed ci_ok)"

lemmas bench_defs =
  itsybitsy_def nano33_def bench_def broken_docker_def run_itsy_def run_nano_def
  commit_def rerun_itsy_def ci_ok_def ci_failed_def artifact_def init_def

lemmas code_defs =
  ghwebhook_def buildhook_def processBuild_def buildDocker_def processBoardRun_def
  emit_def send_def NewBuild_def final_def panic_of_def Let_def
  debugSkipBinaryInstall_def


subsection \<open>The status of a run, read off the calls\<close>

text \<open>
  Modelled from the spec: the status of a run. main.go stores none: \<open>Run\<close> has the
  fields \<open>target\<close>, \<open>id\<close> and \<open>run\<close>, \<open>Build.runs\<close> holds the provider's
  check runs, and the methods that report to the provider are not part of the sources
  at hand. The spec names the statuses and ties them to the steps of a cycle: a run is
  Flashing when the flash is invoked on its board, Testing when the test is invoked,
  and Passed or Failed when that result is published for its target. \<open>status_set\<close>
  is the status that one call gives to the run of target \<open>t\<close>, if the call is about
  that run, and \<open>history\<close> lists the statuses a trace gives to it, in order. The
  call of \<open>test\<close> carries no sha, so the history is kept by target, over all commits.
\<close>

datatype status = Pending | Queued | Flashing | Testing | Passed | Failed








section \<open>Properties\<close>

subsection \<open>What a flash and test cycle can touch\<close>

text \<open>
  \<open>processBoardRun\<close> and the loop over the runs only add to the trace; they never
  start docker, and the only panic they can raise is the nil board.
\<close>

lemma processBoardRun_frame:
  "\<exists>t. final (processBoardRun ev build board s) = s\<lparr>trace := trace s @ t\<rparr>
       \<and> (\<forall>argv. Exec argv \<notin> set t)"
proof (cases board)
  case None
  then have "final (processBoardRun ev build board s) = s\<lparr>trace := trace s @ []\<rparr>"
    by (simp add: processBoardRun_def final_def)
  then show ?thesis by fastforce
next
  case (Some bd)
  obtain fo fe where f: "flash ev bd (sha build) = (fo, fe)" by (cases "flash ev bd (sha build)")
  obtain out te where t: "test ev bd = (out, te)" by (cases "test ev bd")
  show ?thesis
  proof (cases fe)
    case (Some e)
    with \<open>board = Some bd\<close> f have
      "final (processBoardRun ev build board s) = s\<lparr>trace := trace s @
         [Printf ''Flashing board %s\<newline>'' [S (displayname bd)], Flash bd (sha build),
          Println [E e], Println [S fo], FailCheckRun (sha build) (target bd) fo]\<rparr>"
      by (simp add: processBoardRun_def final_def emit_def)
    then show ?thesis by fastforce
  next
    case None
    note fnone = this
    show ?thesis
    proof (cases te)
      case (Some e)
      with \<open>board = Some bd\<close> f t fnone have
        "final (processBoardRun ev build board s) = s\<lparr>trace := trace s @
           [Printf ''Flashing board %s\<newline>'' [S (displayname bd)], Flash bd (sha build),
            Sleep 2, Printf ''Running tests on board %s\<newline>'' [S (displayname bd)], Test bd,
            Println [E e], Println [S out], FailCheckRun (sha build) (target bd) out]\<rparr>"
        by (simp add: processBoardRun_def final_def emit_def)
      then show ?thesis by fastforce
    next
      case None
      with \<open>board = Some bd\<close> f t fnone have
        "final (processBoardRun ev build board s) = s\<lparr>trace := trace s @
           [Printf ''Flashing board %s\<newline>'' [S (displayname bd)], Flash bd (sha build),
            Sleep 2, Printf ''Running tests on board %s\<newline>'' [S (displayname bd)], Test bd,
            PassCheckRun (sha build) (target bd) out]\<rparr>"
        by (simp add: processBoardRun_def final_def emit_def)
      then show ?thesis by fastforce
    qed
  qed
qed

lemma processBoardRun_panic:
  "panic_of (processBoardRun ev build board s) \<noteq> Some SliceBoundsOutOfRange"
  by (simp add: processBoardRun_def panic_of_def Let_def split: option.splits prod.splits)

lemma range_runs_frame:
  "\<exists>t. final (range_runs ev build rs s) = s\<lparr>trace := trace s @ t\<rparr>
       \<and> (\<forall>argv. Exec argv \<notin> set t)"
proof (induction rs arbitrary: s)
  case Nil
  have "final (range_runs ev build [] s) = s\<lparr>trace := trace s @ []\<rparr>"
    by (simp add: final_def)
  then show ?case by fastforce
next
  case (Cons r rs)
  obtain t1 where t1: "final (processBoardRun ev build (GetBoard ev (cr_name r)) s) = s\<lparr>trace := trace s @ t1\<rparr>"
    and e1: "\<forall>argv. Exec argv \<notin> set t1"
    using processBoardRun_frame by blast
  show ?case
  proof (cases "processBoardRun ev build (GetBoard ev (cr_name r)) s")
    case (Inl p)
    then have "final (range_runs ev build (r # rs) s) = s\<lparr>trace := trace s @ t1\<rparr>"
      using t1 by (simp add: final_def)
    with e1 show ?thesis by blast
  next
    case (Inr s')
    then have s': "s' = s\<lparr>trace := trace s @ t1\<rparr>" using t1 by (simp add: final_def)
    obtain t2 where t2: "final (range_runs ev build rs s') = s'\<lparr>trace := trace s' @ t2\<rparr>"
      and e2: "\<forall>argv. Exec argv \<notin> set t2"
      using Cons.IH by blast
    have "final (range_runs ev build (r # rs) s) = s\<lparr>trace := trace s @ (t1 @ t2)\<rparr>"
      using Inr t2 s' by simp
    moreover have "\<forall>argv. Exec argv \<notin> set (t1 @ t2)" using e1 e2 by simp
    ultimately show ?thesis by blast
  qed
qed

lemma range_runs_panic:
  "panic_of (range_runs ev build rs s) \<noteq> Some SliceBoundsOutOfRange"
proof (induction rs arbitrary: s)
  case Nil
  show ?case by (simp add: panic_of_def)
next
  case (Cons r rs)
  show ?case
  proof (cases "processBoardRun ev build (GetBoard ev (cr_name r)) s")
    case (Inl p)
    then show ?thesis using processBoardRun_panic [of ev build "GetBoard ev (cr_name r)" s]
      by (simp add: panic_of_def)
  next
    case (Inr s')
    then show ?thesis using Cons.IH [of s'] by simp
  qed
qed

subsection \<open>One iteration of the worker, by the outcome of the docker build\<close>

lemma processBuild_short_sha:
  assumes "store s a = Some build" and "length (sha build) < 7"
  shows "processBuild ev a s =
           Inl (SliceBoundsOutOfRange,
                s\<lparr>trace := trace s @
                  [Printf ''Starting tests for commit %s\<newline>'' [S (sha build)],
                   StartCheckSuite (sha build),
                   Printf ''Building docker image using TinyGo from %s\<newline>'' [S officialRelease]]\<rparr>)"
  using assms
  by (simp add: processBuild_def buildDocker_def emit_def Let_def debugSkipBinaryInstall_def)

lemma processBuild_docker_failed:
  assumes "store s a = Some build" and "7 \<le> length (sha build)"
    and "combinedOutput ev
           [''docker'', ''build'', ''-t'', ''tinygohci:'' @ take 7 (sha build),
            ''-f'', ''tools/docker/Dockerfile'', ''--build-arg'',
            ''TINYGO_DOWNLOAD_URL='' @ officialRelease, ''.''] = (out, Some err)"
  shows "processBuild ev a s =
           Inr (s\<lparr>trace := trace s @
                  [Printf ''Starting tests for commit %s\<newline>'' [S (sha build)],
                   StartCheckSuite (sha build),
                   Printf ''Building docker image using TinyGo from %s\<newline>'' [S officialRelease],
                   Exec [''docker'', ''build'', ''-t'', ''tinygohci:'' @ take 7 (sha build),
                         ''-f'', ''tools/docker/Dockerfile'', ''--build-arg'',
                         ''TINYGO_DOWNLOAD_URL='' @ officialRelease, ''.''],
                   Println [E err], Println [S out], Println [E err],
                   FailCheckSuite (sha build) ''docker build failed'']\<rparr>)"
  using assms
  by (simp add: processBuild_def buildDocker_def emit_def Let_def debugSkipBinaryInstall_def)

lemma processBuild_docker_ok:
  assumes "store s a = Some build" and "7 \<le> length (sha build)"
    and "combinedOutput ev
           [''docker'', ''build'', ''-t'', ''tinygohci:'' @ take 7 (sha build),
            ''-f'', ''tools/docker/Dockerfile'', ''--build-arg'',
            ''TINYGO_DOWNLOAD_URL='' @ officialRelease, ''.''] = (out, None)"
  shows "processBuild ev a s =
           range_runs ev build (map snd (runs build))
             (s\<lparr>trace := trace s @
                  [Printf ''Starting tests for commit %s\<newline>'' [S (sha build)],
                   StartCheckSuite (sha build),
                   Printf ''Building docker image using TinyGo from %s\<newline>'' [S officialRelease],
                   Exec [''docker'', ''build'', ''-t'', ''tinygohci:'' @ take 7 (sha build),
                         ''-f'', ''tools/docker/Dockerfile'', ''--build-arg'',
                         ''TINYGO_DOWNLOAD_URL='' @ officialRelease, ''.''],
                   Printf ''Running checks for commit %s\<newline>'' [S (sha build)]]\<rparr>)"
  using assms
  by (simp add: processBuild_def buildDocker_def emit_def Let_def debugSkipBinaryInstall_def)

text \<open>
  With a sha of at least 7 bytes the trace of an iteration starts with the same four
  calls whatever docker answers, and docker is started exactly once.
\<close>

lemma processBuild_trace:
  assumes "store s a = Some build" and "7 \<le> length (sha build)"
  shows "\<exists>t. final (processBuild ev a s) =
               s\<lparr>trace := trace s @
                  [Printf ''Starting tests for commit %s\<newline>'' [S (sha build)],
                   StartCheckSuite (sha build),
                   Printf ''Building docker image using TinyGo from %s\<newline>'' [S officialRelease],
                   Exec [''docker'', ''build'', ''-t'', ''tinygohci:'' @ take 7 (sha build),
                         ''-f'', ''tools/docker/Dockerfile'', ''--build-arg'',
                         ''TINYGO_DOWNLOAD_URL='' @ officialRelease, ''.'']] @ t\<rparr>
           \<and> (\<forall>argv. Exec argv \<notin> set t)"
proof -
  let ?argv = "[''docker'', ''build'', ''-t'', ''tinygohci:'' @ take 7 (sha build),
                ''-f'', ''tools/docker/Dockerfile'', ''--build-arg'',
                ''TINYGO_DOWNLOAD_URL='' @ officialRelease, ''.'']"
  obtain out e where co: "combinedOutput ev ?argv = (out, e)"
    by (cases "combinedOutput ev ?argv")
  show ?thesis
  proof (cases e)
    case (Some err)
    with co have c: "combinedOutput ev ?argv = (out, Some err)" by simp
    have "final (processBuild ev a s) =
            s\<lparr>trace := trace s @
               [Printf ''Starting tests for commit %s\<newline>'' [S (sha build)],
                StartCheckSuite (sha build),
                Printf ''Building docker image using TinyGo from %s\<newline>'' [S officialRelease],
                Exec ?argv] @
               [Println [E err], Println [S out], Println [E err],
                FailCheckSuite (sha build) ''docker build failed'']\<rparr>"
      by (simp add: processBuild_docker_failed [OF assms c] final_def)
    moreover have "\<forall>argv. Exec argv \<notin> set [Println [E err], Println [S out], Println [E err],
                FailCheckSuite (sha build) ''docker build failed'']"
      by simp
    ultimately show ?thesis by blast
  next
    case None
    with co have c: "combinedOutput ev ?argv = (out, None)" by simp
    let ?s5 = "s\<lparr>trace := trace s @
                  [Printf ''Starting tests for commit %s\<newline>'' [S (sha build)],
                   StartCheckSuite (sha build),
                   Printf ''Building docker image using TinyGo from %s\<newline>'' [S officialRelease],
                   Exec ?argv,
                   Printf ''Running checks for commit %s\<newline>'' [S (sha build)]]\<rparr>"
    obtain t where t: "final (range_runs ev build (map snd (runs build)) ?s5) = ?s5\<lparr>trace := trace ?s5 @ t\<rparr>"
      and e: "\<forall>argv. Exec argv \<notin> set t"
      using range_runs_frame by blast
    have "final (processBuild ev a s) =
            s\<lparr>trace := trace s @
               [Printf ''Starting tests for commit %s\<newline>'' [S (sha build)],
                StartCheckSuite (sha build),
                Printf ''Building docker image using TinyGo from %s\<newline>'' [S officialRelease],
                Exec ?argv] @
               (Printf ''Running checks for commit %s\<newline>'' [S (sha build)] # t)\<rparr>"
      using t by (simp add: processBuild_docker_ok [OF assms c])
    moreover have "\<forall>argv. Exec argv \<notin> set (Printf ''Running checks for commit %s\<newline>'' [S (sha build)] # t)"
      using e by simp
    ultimately show ?thesis by blast
  qed
qed

lemma processBuild_panic:
  assumes "store s a = Some build" and "7 \<le> length (sha build)"
  shows "panic_of (processBuild ev a s) \<noteq> Some SliceBoundsOutOfRange"
proof -
  let ?argv = "[''docker'', ''build'', ''-t'', ''tinygohci:'' @ take 7 (sha build),
                ''-f'', ''tools/docker/Dockerfile'', ''--build-arg'',
                ''TINYGO_DOWNLOAD_URL='' @ officialRelease, ''.'']"
  obtain out e where co: "combinedOutput ev ?argv = (out, e)"
    by (cases "combinedOutput ev ?argv")
  show ?thesis
  proof (cases e)
    case (Some err)
    with co have c: "combinedOutput ev ?argv = (out, Some err)" by simp
    show ?thesis by (simp add: processBuild_docker_failed [OF assms c] panic_of_def)
  next
    case None
    with co have c: "combinedOutput ev ?argv = (out, None)" by simp
    show ?thesis by (simp add: processBuild_docker_ok [OF assms c] range_runs_panic)
  qed
qed

text \<open>The worker never writes to the index, the store or the channel.\<close>

lemma processBuild_frame:
  "\<exists>t. final (processBuild ev a s) = s\<lparr>trace := trace s @ t\<rparr>"
proof (cases "store s a")
  case None
  then have "final (processBuild ev a s) = s\<lparr>trace := trace s @ []\<rparr>"
    by (simp add: processBuild_def final_def)
  then show ?thesis by blast
next
  case (Some build)
  show ?thesis
  proof (cases "length (sha build) < 7")
    case True
    have "final (processBuild ev a s) =
            s\<lparr>trace := trace s @
               [Printf ''Starting tests for commit %s\<newline>'' [S (sha build)],
                StartCheckSuite (sha build),
                Printf ''Building docker image using TinyGo from %s\<newline>'' [S officialRelease]]\<rparr>"
      by (simp add: processBuild_short_sha [OF Some True] final_def)
    then show ?thesis by blast
  next
    case False
    then have "7 \<le> length (sha build)" by simp
    from processBuild_trace [OF Some this, of ev] show ?thesis by blast
  qed
qed

subsection \<open>Claims about the /buildhook handler\<close>

text \<open>
  C9. A build notification whose CI status is not \<open>success\<close> makes the handler
  return early: it writes three log lines and nothing else. The index, the store (so
  every \<open>binaryURL\<close>) and the channel are as before.
\<close>

theorem buildhook_not_success_is_logged_only:
  assumes "Status bi \<noteq> ''success''"
  shows "buildhook ev (Parsed bi) s =
           Inr (s\<lparr>trace := trace s @
                  [Println [S ''CircleCI buildhook received.''],
                   Printf ''Build Info: %+v\<newline>'' [B bi],
                   Printf ''Not running tests for %s status was %s\<newline>''
                     [S (VCSRevision bi), S (Status bi)]]\<rparr>)"
  using assms by (simp add: buildhook_def emit_def Let_def)

theorem buildhook_not_success_is_logged_only_witness:
  "Status ci_failed \<noteq> ''success'' \<and>
   builds (final (serve bench [commit, Buildhook (Parsed ci_failed)] init)) ''abc1234def'' = Some 0 \<and>
   map_option binaryURL (store (final (serve bench [commit, Buildhook (Parsed ci_failed)] init)) 0) = Some [] \<and>
   buildsCh (final (serve bench [commit, Buildhook (Parsed ci_failed)] init)) = []"
proof -
  have h: "Status ci_failed \<noteq> ''success''" by (simp add: ci_failed_def)
  show ?thesis
    using h buildhook_not_success_is_logged_only [OF h, of bench "final (serve bench [commit] init)"]
    by (simp add: bench_defs code_defs)
qed

text \<open>
  C3. A successful build notification for a sha that has no \<open>Build\<close> in the index:
  the lookup gives the nil pointer and the assignment to \<open>binaryURL\<close> through it
  panics. The handler logs no lookup error and does not return; only the two log lines
  written before the lookup are there.
\<close>

theorem buildhook_unknown_sha_panics:
  "buildhook bench (Parsed ci_ok) init =
     Inl (NilPointerDereference,
          init\<lparr>trace := [Println [S ''CircleCI buildhook received.''],
                         Printf ''Build Info: %+v\<newline>'' [B ci_ok]]\<rparr>)"
  by (simp add: buildhook_def emit_def Let_def init_def bench_def ci_ok_def)

subsection \<open>Claims about the worker\<close>

text \<open>
  C10. The docker image is tagged \<open>tinygohci:\<close> followed by the first 7 bytes of the
  sha of the \<open>Build\<close>. An iteration of the worker on a \<open>Build\<close> whose sha is
  shorter panics on the slice, before docker is started; on a sha of at least 7 bytes
  it never raises that panic and starts docker with that tag.
\<close>

theorem docker_tag_needs_seven_bytes:
  assumes "store s a = Some build"
  shows "(length (sha build) < 7 \<longrightarrow>
            processBuild ev a s =
              Inl (SliceBoundsOutOfRange,
                   s\<lparr>trace := trace s @
                     [Printf ''Starting tests for commit %s\<newline>'' [S (sha build)],
                      StartCheckSuite (sha build),
                      Printf ''Building docker image using TinyGo from %s\<newline>'' [S officialRelease]]\<rparr>))
       \<and> (7 \<le> length (sha build) \<longrightarrow>
            panic_of (processBuild ev a s) \<noteq> Some SliceBoundsOutOfRange
            \<and> Exec [''docker'', ''build'', ''-t'', ''tinygohci:'' @ take 7 (sha build),
                     ''-f'', ''tools/docker/Dockerfile'', ''--build-arg'',
                     ''TINYGO_DOWNLOAD_URL='' @ officialRelease, ''.'']
                \<in> set (trace (final (processBuild ev a s))))"
proof (intro conjI impI)
  assume "length (sha build) < 7"
  from processBuild_short_sha [OF assms this]
  show "processBuild ev a s =
          Inl (SliceBoundsOutOfRange,
               s\<lparr>trace := trace s @
                 [Printf ''Starting tests for commit %s\<newline>'' [S (sha build)],
                  StartCheckSuite (sha build),
                  Printf ''Building docker image using TinyGo from %s\<newline>'' [S officialRelease]]\<rparr>)" .
next
  assume "7 \<le> length (sha build)"
  from processBuild_panic [OF assms this]
  show "panic_of (processBuild ev a s) \<noteq> Some SliceBoundsOutOfRange" .
next
  assume l: "7 \<le> length (sha build)"
  from processBuild_trace [OF assms l, of ev] obtain t where
    "final (processBuild ev a s) =
       s\<lparr>trace := trace s @
          [Printf ''Starting tests for commit %s\<newline>'' [S (sha build)],
           StartCheckSuite (sha build),
           Printf ''Building docker image using TinyGo from %s\<newline>'' [S officialRelease],
           Exec [''docker'', ''build'', ''-t'', ''tinygohci:'' @ take 7 (sha build),
                 ''-f'', ''tools/docker/Dockerfile'', ''--build-arg'',
                 ''TINYGO_DOWNLOAD_URL='' @ officialRelease, ''.'']] @ t\<rparr>"
    by blast
  then show "Exec [''docker'', ''build'', ''-t'', ''tinygohci:'' @ take 7 (sha build),
                   ''-f'', ''tools/docker/Dockerfile'', ''--build-arg'',
                   ''TINYGO_DOWNLOAD_URL='' @ officialRelease, ''.'']
               \<in> set (trace (final (processBuild ev a s)))"
    by simp
qed

text \<open>
  The witness: a re-run request for the unknown sha \<open>abc\<close> puts a \<open>Build\<close> with a
  3-byte sha on the channel, and the worker panics on it; the same request for
  \<open>abc1234def\<close> leads to the tag \<open>tinygohci:abc1234\<close>.
\<close>

theorem docker_tag_needs_seven_bytes_witness:
  "panic_of (processBuild bench 0
      (final (ghwebhook bench (Event (CheckRunEvent (run_itsy\<lparr>cr_head_sha := ''abc''\<rparr>))) init)))
     = Some SliceBoundsOutOfRange
   \<and> panic_of (processBuild bench 0 (final (ghwebhook bench (Event (CheckRunEvent run_itsy)) init)))
     \<noteq> Some SliceBoundsOutOfRange
   \<and> Exec [''docker'', ''build'', ''-t'', ''tinygohci:abc1234'',
            ''-f'', ''tools/docker/Dockerfile'', ''--build-arg'',
            ''TINYGO_DOWNLOAD_URL='' @ officialRelease, ''.'']
       \<in> set (trace (final (processBuild bench 0 (final (ghwebhook bench (Event (CheckRunEvent run_itsy)) init)))))"
proof -
  have short: "store (final (ghwebhook bench (Event (CheckRunEvent (run_itsy\<lparr>cr_head_sha := ''abc''\<rparr>))) init)) 0
      = Some \<lparr>binaryURL = [], sha = ''abc'', suite = None,
               runs = [(''itsybitsy-m4'', run_itsy\<lparr>cr_head_sha := ''abc''\<rparr>)]\<rparr>"
    by (simp add: bench_defs code_defs)
  have long: "store (final (ghwebhook bench (Event (CheckRunEvent run_itsy)) init)) 0
      = Some \<lparr>binaryURL = [], sha = ''abc1234def'', suite = None,
               runs = [(''itsybitsy-m4'', run_itsy)]\<rparr>"
    by (simp add: bench_defs code_defs)
  show ?thesis
    using docker_tag_needs_seven_bytes [OF short, of bench]
          docker_tag_needs_seven_bytes [OF long, of bench]
    by (simp add: panic_of_def)
qed

text \<open>
  C6, as the code has it. With \<open>debugSkipBinaryInstall\<close> set to \<open>true\<close> the
  worker passes \<open>officialRelease\<close> to the docker build, whatever the \<open>binaryURL\<close>
  of the dequeued \<open>Build\<close> is: every iteration on a \<open>Build\<close> with a sha of at
  least 7 bytes starts docker exactly once, with
  \<open>TINYGO_DOWNLOAD_URL=\<close> followed by the official release URL.
\<close>

theorem docker_build_downloads_official_release:
  assumes "store s a = Some build" and "7 \<le> length (sha build)"
  shows "\<exists>t. trace (final (processBuild ev a s)) =
               trace s @
                 [Printf ''Starting tests for commit %s\<newline>'' [S (sha build)],
                  StartCheckSuite (sha build),
                  Printf ''Building docker image using TinyGo from %s\<newline>'' [S officialRelease],
                  Exec [''docker'', ''build'', ''-t'', ''tinygohci:'' @ take 7 (sha build),
                        ''-f'', ''tools/docker/Dockerfile'', ''--build-arg'',
                        ''TINYGO_DOWNLOAD_URL='' @ officialRelease, ''.'']] @ t
           \<and> (\<forall>argv. Exec argv \<notin> set t)"
proof -
  from processBuild_trace [OF assms, of ev] obtain t where
    f: "final (processBuild ev a s) =
       s\<lparr>trace := trace s @
          [Printf ''Starting tests for commit %s\<newline>'' [S (sha build)],
           StartCheckSuite (sha build),
           Printf ''Building docker image using TinyGo from %s\<newline>'' [S officialRelease],
           Exec [''docker'', ''build'', ''-t'', ''tinygohci:'' @ take 7 (sha build),
                 ''-f'', ''tools/docker/Dockerfile'', ''--build-arg'',
                 ''TINYGO_DOWNLOAD_URL='' @ officialRelease, ''.'']] @ t\<rparr>"
    and e: "\<forall>argv. Exec argv \<notin> set t"
    by blast
  have "trace (final (processBuild ev a s)) =
          trace s @
            [Printf ''Starting tests for commit %s\<newline>'' [S (sha build)],
             StartCheckSuite (sha build),
             Printf ''Building docker image using TinyGo from %s\<newline>'' [S officialRelease],
             Exec [''docker'', ''build'', ''-t'', ''tinygohci:'' @ take 7 (sha build),
                   ''-f'', ''tools/docker/Dockerfile'', ''--build-arg'',
                   ''TINYGO_DOWNLOAD_URL='' @ officialRelease, ''.'']] @ t"
    by (simp add: f)
  with e show ?thesis by blast
qed

text \<open>
  The witness: the commit is discovered and its artifact is ready at
  \<open>http://x/bin.tgz\<close>; the worker's iteration on that \<open>Build\<close> starts docker with
  the official release URL.
\<close>

theorem docker_build_downloads_official_release_witness:
  "store (final (serve bench [commit, artifact] init)) 0
     = Some \<lparr>binaryURL = ''http://x/bin.tgz'', sha = ''abc1234def'', suite = None, runs = []\<rparr>
   \<and> 7 \<le> length (sha \<lparr>binaryURL = ''http://x/bin.tgz'', sha = ''abc1234def'', suite = None, runs = []\<rparr>)
   \<and> Exec [''docker'', ''build'', ''-t'', ''tinygohci:abc1234'',
            ''-f'', ''tools/docker/Dockerfile'', ''--build-arg'',
            ''TINYGO_DOWNLOAD_URL=https://github.com/tinygo-org/tinygo/releases/download/v0.13.1/tinygo0.13.1.linux-amd64.tar.gz'',
            ''.'']
       \<in> set (trace (final (processBuild bench 0 (final (serve bench [commit, artifact] init)))))"
proof -
  have h1: "store (final (serve bench [commit, artifact] init)) 0
     = Some \<lparr>binaryURL = ''http://x/bin.tgz'', sha = ''abc1234def'', suite = None, runs = []\<rparr>"
    by (simp add: bench_defs code_defs)
  have h2: "7 \<le> length (sha \<lparr>binaryURL = ''http://x/bin.tgz'', sha = ''abc1234def'', suite = None, runs = []\<rparr>)"
    by simp
  from docker_build_downloads_official_release [OF h1 h2, of bench] obtain t where
    "trace (final (processBuild bench 0 (final (serve bench [commit, artifact] init)))) =
       trace (final (serve bench [commit, artifact] init)) @
         [Printf ''Starting tests for commit %s\<newline>'' [S ''abc1234def''],
          StartCheckSuite ''abc1234def'',
          Printf ''Building docker image using TinyGo from %s\<newline>'' [S officialRelease],
          Exec [''docker'', ''build'', ''-t'', ''tinygohci:'' @ take 7 ''abc1234def'',
                ''-f'', ''tools/docker/Dockerfile'', ''--build-arg'',
                ''TINYGO_DOWNLOAD_URL='' @ officialRelease, ''.'']] @ t"
    by auto
  then have "Exec [''docker'', ''build'', ''-t'', ''tinygohci:'' @ take 7 ''abc1234def'',
                ''-f'', ''tools/docker/Dockerfile'', ''--build-arg'',
                ''TINYGO_DOWNLOAD_URL='' @ officialRelease, ''.'']
       \<in> set (trace (final (processBuild bench 0 (final (serve bench [commit, artifact] init)))))"
    by simp
  then show ?thesis using h1 h2 by (simp add: officialRelease_def)
qed

text \<open>
  C6, as the specification has it, fails: the \<open>Build\<close> received by the worker has
  the \<open>binaryURL\<close> \<open>http://x/bin.tgz\<close>, and the only docker build of the
  iteration is not given that URL.
\<close>

theorem docker_build_ignores_binaryURL:
  "map_option binaryURL (store (final (serve bench [commit, artifact] init)) 0) = Some ''http://x/bin.tgz''
   \<and> buildsCh (final (serve bench [commit, artifact] init)) = [0]
   \<and> trace (final (serve bench [commit, artifact, Worker] init)) =
       [PendingCheckSuite ''abc1234def'',
        Println [S ''CircleCI buildhook received.''],
        Printf ''Build Info: %+v\<newline>'' [B ci_ok],
        Printf ''Starting tests for commit %s\<newline>'' [S ''abc1234def''],
        StartCheckSuite ''abc1234def'',
        Printf ''Building docker image using TinyGo from %s\<newline>''
          [S ''https://github.com/tinygo-org/tinygo/releases/download/v0.13.1/tinygo0.13.1.linux-amd64.tar.gz''],
        Exec [''docker'', ''build'', ''-t'', ''tinygohci:abc1234'',
              ''-f'', ''tools/docker/Dockerfile'', ''--build-arg'',
              ''TINYGO_DOWNLOAD_URL=https://github.com/tinygo-org/tinygo/releases/download/v0.13.1/tinygo0.13.1.linux-amd64.tar.gz'',
              ''.''],
        Printf ''Running checks for commit %s\<newline>'' [S ''abc1234def'']]
   \<and> Exec [''docker'', ''build'', ''-t'', ''tinygohci:abc1234'',
            ''-f'', ''tools/docker/Dockerfile'', ''--build-arg'',
            ''TINYGO_DOWNLOAD_URL=http://x/bin.tgz'', ''.'']
       \<notin> set (trace (final (serve bench [commit, artifact, Worker] init)))"
  by (simp add: bench_defs code_defs officialRelease_def)

text \<open>
  C4, as the code has it. When the docker build of a dequeued \<open>Build\<close> fails, the
  iteration logs the error and the output of docker, fails the check suite with the
  fixed text \<open>docker build failed\<close>, and ends: no board is flashed or tested, no
  check run is reported, and the \<open>Build\<close> is not sent to the channel again (the
  channel holds what was behind it).
\<close>

theorem docker_failure_fails_suite_and_skips_runs:
  assumes "buildsCh s = a # q" and "store s a = Some build" and "7 \<le> length (sha build)"
    and "combinedOutput ev
           [''docker'', ''build'', ''-t'', ''tinygohci:'' @ take 7 (sha build),
            ''-f'', ''tools/docker/Dockerfile'', ''--build-arg'',
            ''TINYGO_DOWNLOAD_URL='' @ officialRelease, ''.''] = (out, Some err)"
  shows "processBuilds ev (Suc 0) s =
           Inr (s\<lparr>buildsCh := q,
                  trace := trace s @
                  [Printf ''Starting tests for commit %s\<newline>'' [S (sha build)],
                   StartCheckSuite (sha build),
                   Printf ''Building docker image using TinyGo from %s\<newline>'' [S officialRelease],
                   Exec [''docker'', ''build'', ''-t'', ''tinygohci:'' @ take 7 (sha build),
                         ''-f'', ''tools/docker/Dockerfile'', ''--build-arg'',
                         ''TINYGO_DOWNLOAD_URL='' @ officialRelease, ''.''],
                   Println [E err], Println [S out], Println [E err],
                   FailCheckSuite (sha build) ''docker build failed'']\<rparr>)"
proof -
  have st: "store (s\<lparr>buildsCh := q\<rparr>) a = Some build" using assms(2) by simp
  show ?thesis
    using assms(1) processBuild_docker_failed [OF st assms(3) assms(4)]
    by simp
qed

theorem docker_failure_fails_suite_and_skips_runs_witness:
  "buildsCh (final (serve bench [rerun_itsy] init)) = [0]
   \<and> store (final (serve bench [rerun_itsy] init)) 0
       = Some \<lparr>binaryURL = [], sha = ''abc1234def'', suite = None, runs = [(''itsybitsy-m4'', run_itsy)]\<rparr>
   \<and> combinedOutput broken_docker
        [''docker'', ''build'', ''-t'', ''tinygohci:'' @ take 7 ''abc1234def'',
         ''-f'', ''tools/docker/Dockerfile'', ''--build-arg'',
         ''TINYGO_DOWNLOAD_URL='' @ officialRelease, ''.'']
       = (''no space left on device'', Some (Error ''exit status 1''))
   \<and> buildsCh (final (processBuilds broken_docker (Suc 0) (final (serve bench [rerun_itsy] init)))) = []
   \<and> trace (final (processBuilds broken_docker (Suc 0) (final (serve bench [rerun_itsy] init)))) =
       [Printf ''Github checkrun event for %d, %s'' [I 41, S ''abc1234def''],
        Printf ''Starting tests for commit %s\<newline>'' [S ''abc1234def''],
        StartCheckSuite ''abc1234def'',
        Printf ''Building docker image using TinyGo from %s\<newline>'' [S officialRelease],
        Exec [''docker'', ''build'', ''-t'', ''tinygohci:abc1234'',
              ''-f'', ''tools/docker/Dockerfile'', ''--build-arg'',
              ''TINYGO_DOWNLOAD_URL='' @ officialRelease, ''.''],
        Println [E (Error ''exit status 1'')], Println [S ''no space left on device''],
        Println [E (Error ''exit status 1'')],
        FailCheckSuite ''abc1234def'' ''docker build failed'']"
proof -
  have h1: "buildsCh (final (serve bench [rerun_itsy] init)) = 0 # []"
    by (simp add: bench_defs code_defs)
  have h2: "store (final (serve bench [rerun_itsy] init)) 0
       = Some \<lparr>binaryURL = [], sha = ''abc1234def'', suite = None, runs = [(''itsybitsy-m4'', run_itsy)]\<rparr>"
    by (simp add: bench_defs code_defs)
  have h3: "7 \<le> length (sha \<lparr>binaryURL = [], sha = ''abc1234def'', suite = None, runs = [(''itsybitsy-m4'', run_itsy)]\<rparr>)"
    by simp
  have h4: "combinedOutput broken_docker
        [''docker'', ''build'', ''-t'', ''tinygohci:'' @ take 7 (sha \<lparr>binaryURL = [], sha = ''abc1234def'', suite = None, runs = [(''itsybitsy-m4'', run_itsy)]\<rparr>),
         ''-f'', ''tools/docker/Dockerfile'', ''--build-arg'',
         ''TINYGO_DOWNLOAD_URL='' @ officialRelease, ''.'']
       = (''no space left on device'', Some (Error ''exit status 1''))"
    by (simp add: broken_docker_def)
  have tr: "trace (final (serve bench [rerun_itsy] init)) =
       [Printf ''Github checkrun event for %d, %s'' [I 41, S ''abc1234def'']]"
    by (simp add: bench_defs code_defs)
  show ?thesis
    using h1 h2 h4 tr docker_failure_fails_suite_and_skips_runs [OF h1 h2 h3 h4]
    by (simp add: final_def)
qed

text \<open>
  C4, as the specification has it, fails: docker answers \<open>no space left on device\<close>
  with the error \<open>exit status 1\<close>, and neither text is what the check suite is
  failed with.
\<close>

theorem docker_failure_detail_is_fixed_text:
  "trace (final (serve broken_docker [rerun_itsy, Worker] init)) =
       [Printf ''Github checkrun event for %d, %s'' [I 41, S ''abc1234def''],
        Printf ''Starting tests for commit %s\<newline>'' [S ''abc1234def''],
        StartCheckSuite ''abc1234def'',
        Printf ''Building docker image using TinyGo from %s\<newline>''
          [S ''https://github.com/tinygo-org/tinygo/releases/download/v0.13.1/tinygo0.13.1.linux-amd64.tar.gz''],
        Exec [''docker'', ''build'', ''-t'', ''tinygohci:abc1234'',
              ''-f'', ''tools/docker/Dockerfile'', ''--build-arg'',
              ''TINYGO_DOWNLOAD_URL=https://github.com/tinygo-org/tinygo/releases/download/v0.13.1/tinygo0.13.1.linux-amd64.tar.gz'',
              ''.''],
        Println [E (Error ''exit status 1'')], Println [S ''no space left on device''],
        Println [E (Error ''exit status 1'')],
        FailCheckSuite ''abc1234def'' ''docker build failed'']
   \<and> FailCheckSuite ''abc1234def'' ''no space left on device''
       \<notin> set (trace (final (serve broken_docker [rerun_itsy, Worker] init)))
   \<and> FailCheckSuite ''abc1234def'' ''exit status 1''
       \<notin> set (trace (final (serve broken_docker [rerun_itsy, Worker] init)))"
  by (simp add: bench_defs code_defs officialRelease_def)

subsection \<open>Claims about the loop over the runs\<close>

lemma processBoardRun_resolved:
  "\<exists>s'. processBoardRun ev build (Some bd) s = Inr s'
        \<and> Flash bd (sha build) \<in> set (trace s')
        \<and> (snd (flash ev bd (sha build)) = None \<longrightarrow> Test bd \<in> set (trace s'))"
  by (auto simp: processBoardRun_def emit_def Let_def split: prod.splits option.splits)

lemma range_runs_keeps_trace:
  "set (trace s) \<subseteq> set (trace (final (range_runs ev build rs s)))"
proof -
  obtain t where "final (range_runs ev build rs s) = s\<lparr>trace := trace s @ t\<rparr>"
    using range_runs_frame by blast
  then show ?thesis by simp
qed

text \<open>
  When every target of the list resolves to a board, the loop does not panic, every
  target is flashed, and every target whose flash succeeds is tested, wherever in the
  list a flash fails.
\<close>

lemma range_runs_visits_all:
  assumes "\<forall>r\<in>set rs. GetBoard ev (cr_name r) \<noteq> None"
  shows "panic_of (range_runs ev build rs s) = None
       \<and> (\<forall>r\<in>set rs. \<forall>bd. GetBoard ev (cr_name r) = Some bd \<longrightarrow>
             Flash bd (sha build) \<in> set (trace (final (range_runs ev build rs s)))
             \<and> (snd (flash ev bd (sha build)) = None \<longrightarrow>
                  Test bd \<in> set (trace (final (range_runs ev build rs s)))))"
  using assms
proof (induction rs arbitrary: s)
  case Nil
  show ?case by (simp add: panic_of_def)
next
  case (Cons r rs)
  from Cons.prems obtain bdr where bdr: "GetBoard ev (cr_name r) = Some bdr" by auto
  obtain s' where s': "processBoardRun ev build (Some bdr) s = Inr s'"
    and fl: "Flash bdr (sha build) \<in> set (trace s')"
    and te: "snd (flash ev bdr (sha build)) = None \<longrightarrow> Test bdr \<in> set (trace s')"
    using processBoardRun_resolved by blast
  have step: "range_runs ev build (r # rs) s = range_runs ev build rs s'"
    using bdr s' by simp
  have rest: "\<forall>r\<in>set rs. GetBoard ev (cr_name r) \<noteq> None" using Cons.prems by simp
  note ih = Cons.IH [OF rest, of s']
  have keep: "set (trace s') \<subseteq> set (trace (final (range_runs ev build rs s')))"
    by (rule range_runs_keeps_trace)
  show ?case
  proof (intro conjI ballI allI impI)
    show "panic_of (range_runs ev build (r # rs) s) = None" using ih step by simp
  next
    fix r' bd'
    assume r': "r' \<in> set (r # rs)" and bd': "GetBoard ev (cr_name r') = Some bd'"
    show "Flash bd' (sha build) \<in> set (trace (final (range_runs ev build (r # rs) s)))"
    proof (cases "r' = r")
      case True
      then have "bd' = bdr" using bd' bdr by simp
      then show ?thesis using fl keep step by auto
    next
      case False
      then have "r' \<in> set rs" using r' by simp
      then show ?thesis using ih bd' step by simp
    qed
  next
    fix r' bd'
    assume r': "r' \<in> set (r # rs)" and bd': "GetBoard ev (cr_name r') = Some bd'"
      and ok: "snd (flash ev bd' (sha build)) = None"
    show "Test bd' \<in> set (trace (final (range_runs ev build (r # rs) s)))"
    proof (cases "r' = r")
      case True
      then have "bd' = bdr" using bd' bdr by simp
      then show ?thesis using te ok keep step by auto
    next
      case False
      then have "r' \<in> set rs" using r' by simp
      then show ?thesis using ih bd' ok step by simp
    qed
  qed
qed

text \<open>
  C5. When the loop reaches a run whose board resolves and whose flash fails, that
  cycle consists of the flash, two log lines, and \<open>failCheckRun\<close> for the target of
  the board with the flash output: no settle sleep and no test. The loop then goes on
  with the remaining runs of the same \<open>Build\<close>; provided their boards resolve, each
  of them is flashed, and each one whose own flash succeeds is tested.
\<close>

theorem flash_failure_fails_run_and_continues:
  assumes "GetBoard ev (cr_name r) = Some bd"
    and "flash ev bd (sha build) = (flashout, Some err)"
  shows "range_runs ev build (r # rs) s =
           range_runs ev build rs
             (s\<lparr>trace := trace s @
                [Printf ''Flashing board %s\<newline>'' [S (displayname bd)],
                 Flash bd (sha build),
                 Println [E err], Println [S flashout],
                 FailCheckRun (sha build) (target bd) flashout]\<rparr>)
       \<and> ((\<forall>r'\<in>set rs. GetBoard ev (cr_name r') \<noteq> None) \<longrightarrow>
            panic_of (range_runs ev build (r # rs) s) = None
            \<and> (\<forall>r'\<in>set rs. \<forall>bd'. GetBoard ev (cr_name r') = Some bd' \<longrightarrow>
                  Flash bd' (sha build) \<in> set (trace (final (range_runs ev build (r # rs) s)))
                  \<and> (snd (flash ev bd' (sha build)) = None \<longrightarrow>
                       Test bd' \<in> set (trace (final (range_runs ev build (r # rs) s))))))"
proof (intro conjI impI)
  show "range_runs ev build (r # rs) s =
           range_runs ev build rs
             (s\<lparr>trace := trace s @
                [Printf ''Flashing board %s\<newline>'' [S (displayname bd)],
                 Flash bd (sha build),
                 Println [E err], Println [S flashout],
                 FailCheckRun (sha build) (target bd) flashout]\<rparr>)"
    using assms by (simp add: processBoardRun_def emit_def)
next
  assume "\<forall>r'\<in>set rs. GetBoard ev (cr_name r') \<noteq> None"
  then have all: "\<forall>r'\<in>set (r # rs). GetBoard ev (cr_name r') \<noteq> None"
    using assms(1) by simp
  from range_runs_visits_all [OF all, of build s]
  show "panic_of (range_runs ev build (r # rs) s) = None" by blast
next
  assume "\<forall>r'\<in>set rs. GetBoard ev (cr_name r') \<noteq> None"
  then have all: "\<forall>r'\<in>set (r # rs). GetBoard ev (cr_name r') \<noteq> None"
    using assms(1) by simp
  from range_runs_visits_all [OF all, of build s]
  show "\<forall>r'\<in>set rs. \<forall>bd'. GetBoard ev (cr_name r') = Some bd' \<longrightarrow>
          Flash bd' (sha build) \<in> set (trace (final (range_runs ev build (r # rs) s)))
          \<and> (snd (flash ev bd' (sha build)) = None \<longrightarrow>
               Test bd' \<in> set (trace (final (range_runs ev build (r # rs) s))))"
    by simp
qed

text \<open>
  The witness is scenario C: the Nano33 fails to flash, and the ItsyBitsy-M4 after it
  in the same \<open>Build\<close> is flashed, tested and passed.
\<close>

theorem flash_failure_fails_run_and_continues_witness:
  "GetBoard bench (cr_name run_nano) = Some nano33
   \<and> flash bench nano33 ''abc1234def'' = (''No device found'', Some (Error ''exit status 1''))
   \<and> GetBoard bench (cr_name run_itsy) = Some itsybitsy
   \<and> range_runs bench
        \<lparr>binaryURL = [], sha = ''abc1234def'', suite = None,
          runs = [(''arduino-nano33'', run_nano), (''itsybitsy-m4'', run_itsy)]\<rparr>
        [run_nano, run_itsy] init =
       Inr (init\<lparr>trace :=
          [Printf ''Flashing board %s\<newline>'' [S ''Arduino Nano33-IoT''],
           Flash nano33 ''abc1234def'',
           Println [E (Error ''exit status 1'')], Println [S ''No device found''],
           FailCheckRun ''abc1234def'' ''arduino-nano33'' ''No device found'',
           Printf ''Flashing board %s\<newline>'' [S ''Adafruit ItsyBitsy-M4''],
           Flash itsybitsy ''abc1234def'',
           Sleep 2,
           Printf ''Running tests on board %s\<newline>'' [S ''Adafruit ItsyBitsy-M4''],
           Test itsybitsy,
           PassCheckRun ''abc1234def'' ''itsybitsy-m4'' ''Tests complete.'']\<rparr>)"
proof -
  let ?b = "\<lparr>binaryURL = [], sha = ''abc1234def'', suite = None,
              runs = [(''arduino-nano33'', run_nano), (''itsybitsy-m4'', run_itsy)]\<rparr>"
  have h1: "GetBoard bench (cr_name run_nano) = Some nano33"
    by (simp add: bench_def run_nano_def)
  have h2: "flash bench nano33 (sha ?b) = (''No device found'', Some (Error ''exit status 1''))"
    by (simp add: bench_def nano33_def)
  have h3: "\<forall>r'\<in>set [run_itsy]. GetBoard bench (cr_name r') \<noteq> None"
    by (simp add: bench_def run_itsy_def)
  have h4: "GetBoard bench (cr_name run_itsy) = Some itsybitsy"
    by (simp add: bench_def run_itsy_def)
  show ?thesis
    using h1 h2 h3 h4 flash_failure_fails_run_and_continues [OF h1 h2, of "[run_itsy]" init]
    by (simp add: bench_defs processBoardRun_def emit_def)
qed

subsection \<open>Claims about what reaches the channel\<close>

lemma buildhook_artifact_ready:
  assumes "Status bi = ''success''" and "getTinygoBinaryURL ev (BuildNum bi) = Inr url"
    and "builds s (VCSRevision bi) = Some a" and "store s a = Some build"
  shows "buildhook ev (Parsed bi) s =
           Inr (s\<lparr>store := (store s)(a \<mapsto> build\<lparr>binaryURL := url\<rparr>),
                  buildsCh := buildsCh s @ [a],
                  trace := trace s @
                    [Println [S ''CircleCI buildhook received.''],
                     Printf ''Build Info: %+v\<newline>'' [B bi]]\<rparr>)"
  using assms by (simp add: buildhook_def emit_def send_def Let_def)

text \<open>
  C2, as the code has it. A re-run request enqueues only when its sha is not in the
  index: the handler then creates a \<open>Build\<close> holding that one run and sends it to
  the channel. For a sha that is in the index (whether or not its \<open>Build\<close> has been
  processed or has a \<open>binaryURL\<close>) the handler calls \<open>processBoardRun\<close> itself,
  on a copy of the indexed \<open>Build\<close>, and leaves channel, index and store as they
  are. A successful build notification for a known sha writes \<open>binaryURL\<close> and sends
  the \<open>Build\<close> to the channel. A check-suite event sends nothing.
\<close>

theorem run_request_enqueues_only_unknown_sha:
  "(builds s (cr_head_sha cr) = Some a \<and> store s a = Some build \<longrightarrow>
      ghwebhook ev (Event (CheckRunEvent cr)) s =
        processBoardRun ev build (GetBoard ev (cr_name cr))
          (s\<lparr>trace := trace s @
             [Printf ''Github checkrun event for %d, %s'' [I (cr_id cr), S (cr_head_sha cr)]]\<rparr>)
      \<and> buildsCh (final (ghwebhook ev (Event (CheckRunEvent cr)) s)) = buildsCh s
      \<and> builds (final (ghwebhook ev (Event (CheckRunEvent cr)) s)) = builds s
      \<and> store (final (ghwebhook ev (Event (CheckRunEvent cr)) s)) = store s)
   \<and> (builds s (cr_head_sha cr) = None \<longrightarrow>
      ghwebhook ev (Event (CheckRunEvent cr)) s =
        Inr (s\<lparr>store := (store s)(fresh s \<mapsto>
                    \<lparr>binaryURL = [], sha = cr_head_sha cr, suite = None, runs = [(cr_name cr, cr)]\<rparr>),
               fresh := Suc (fresh s),
               builds := (builds s)(cr_head_sha cr \<mapsto> fresh s),
               buildsCh := buildsCh s @ [fresh s],
               trace := trace s @
                 [Printf ''Github checkrun event for %d, %s'' [I (cr_id cr), S (cr_head_sha cr)]]\<rparr>))
   \<and> (Status bi = ''success'' \<and> getTinygoBinaryURL ev (BuildNum bi) = Inr url
        \<and> builds s (VCSRevision bi) = Some a \<and> store s a = Some build \<longrightarrow>
      buildhook ev (Parsed bi) s =
        Inr (s\<lparr>store := (store s)(a \<mapsto> build\<lparr>binaryURL := url\<rparr>),
               buildsCh := buildsCh s @ [a],
               trace := trace s @
                 [Println [S ''CircleCI buildhook received.''],
                  Printf ''Build Info: %+v\<newline>'' [B bi]]\<rparr>))
   \<and> buildsCh (final (ghwebhook ev (Event (CheckSuiteEvent cs)) s)) = buildsCh s"
proof (intro conjI impI)
  assume k: "builds s (cr_head_sha cr) = Some a \<and> store s a = Some build"
  let ?s1 = "s\<lparr>trace := trace s @
             [Printf ''Github checkrun event for %d, %s'' [I (cr_id cr), S (cr_head_sha cr)]]\<rparr>"
  show inline: "ghwebhook ev (Event (CheckRunEvent cr)) s =
          processBoardRun ev build (GetBoard ev (cr_name cr)) ?s1"
    using k by (simp add: ghwebhook_def emit_def Let_def)
  obtain t where t: "final (processBoardRun ev build (GetBoard ev (cr_name cr)) ?s1)
                     = ?s1\<lparr>trace := trace ?s1 @ t\<rparr>"
    using processBoardRun_frame by blast
  show "buildsCh (final (ghwebhook ev (Event (CheckRunEvent cr)) s)) = buildsCh s"
    by (simp add: inline t)
  show "builds (final (ghwebhook ev (Event (CheckRunEvent cr)) s)) = builds s"
    by (simp add: inline t)
  show "store (final (ghwebhook ev (Event (CheckRunEvent cr)) s)) = store s"
    by (simp add: inline t)
next
  assume "builds s (cr_head_sha cr) = None"
  then show "ghwebhook ev (Event (CheckRunEvent cr)) s =
        Inr (s\<lparr>store := (store s)(fresh s \<mapsto>
                    \<lparr>binaryURL = [], sha = cr_head_sha cr, suite = None, runs = [(cr_name cr, cr)]\<rparr>),
               fresh := Suc (fresh s),
               builds := (builds s)(cr_head_sha cr \<mapsto> fresh s),
               buildsCh := buildsCh s @ [fresh s],
               trace := trace s @
                 [Printf ''Github checkrun event for %d, %s'' [I (cr_id cr), S (cr_head_sha cr)]]\<rparr>)"
    by (simp add: ghwebhook_def emit_def send_def NewBuild_def Let_def)
next
  assume "Status bi = ''success'' \<and> getTinygoBinaryURL ev (BuildNum bi) = Inr url
        \<and> builds s (VCSRevision bi) = Some a \<and> store s a = Some build"
  then show "buildhook ev (Parsed bi) s =
        Inr (s\<lparr>store := (store s)(a \<mapsto> build\<lparr>binaryURL := url\<rparr>),
               buildsCh := buildsCh s @ [a],
               trace := trace s @
                 [Println [S ''CircleCI buildhook received.''],
                  Printf ''Build Info: %+v\<newline>'' [B bi]]\<rparr>)"
    using buildhook_artifact_ready by blast
next
  show "buildsCh (final (ghwebhook ev (Event (CheckSuiteEvent cs)) s)) = buildsCh s"
    by (simp add: ghwebhook_def emit_def NewBuild_def final_def)
qed

text \<open>
  The witness takes the three cases on the bench: a re-run request for the processed
  \<open>Build\<close> of \<open>abc1234def\<close>, the same request on the empty index, and the build
  notification for the \<open>Build\<close> that the request has created.
\<close>

theorem run_request_enqueues_only_unknown_sha_witness:
  "builds (final (serve bench [rerun_itsy, artifact, Worker, Worker] init)) (cr_head_sha run_itsy) = Some 0
   \<and> store (final (serve bench [rerun_itsy, artifact, Worker, Worker] init)) 0
       = Some \<lparr>binaryURL = ''http://x/bin.tgz'', sha = ''abc1234def'', suite = None,
                runs = [(''itsybitsy-m4'', run_itsy)]\<rparr>
   \<and> buildsCh (final (ghwebhook bench (Event (CheckRunEvent run_itsy))
                  (final (serve bench [rerun_itsy, artifact, Worker, Worker] init))))
       = buildsCh (final (serve bench [rerun_itsy, artifact, Worker, Worker] init))
   \<and> builds init (cr_head_sha run_itsy) = None
   \<and> buildsCh (final (ghwebhook bench (Event (CheckRunEvent run_itsy)) init)) = [0]
   \<and> Status ci_ok = ''success''
   \<and> getTinygoBinaryURL bench (BuildNum ci_ok) = Inr ''http://x/bin.tgz''
   \<and> builds (final (serve bench [rerun_itsy] init)) (VCSRevision ci_ok) = Some 0
   \<and> store (final (serve bench [rerun_itsy] init)) 0
       = Some \<lparr>binaryURL = [], sha = ''abc1234def'', suite = None, runs = [(''itsybitsy-m4'', run_itsy)]\<rparr>
   \<and> buildsCh (final (buildhook bench (Parsed ci_ok) (final (serve bench [rerun_itsy] init)))) = [0, 0]"
proof -
  let ?p = "final (serve bench [rerun_itsy, artifact, Worker, Worker] init)"
  let ?bp = "\<lparr>binaryURL = ''http://x/bin.tgz'', sha = ''abc1234def'', suite = None,
               runs = [(''itsybitsy-m4'', run_itsy)]\<rparr>"
  let ?q = "final (serve bench [rerun_itsy] init)"
  let ?bq = "\<lparr>binaryURL = [], sha = ''abc1234def'', suite = None, runs = [(''itsybitsy-m4'', run_itsy)]\<rparr>"
  have k1: "builds ?p (cr_head_sha run_itsy) = Some 0" by (simp add: bench_defs code_defs)
  have k2: "store ?p 0 = Some ?bp" by (simp add: bench_defs code_defs)
  have known: "buildsCh (final (ghwebhook bench (Event (CheckRunEvent run_itsy)) ?p)) = buildsCh ?p"
    using k1 k2 run_request_enqueues_only_unknown_sha [of ?p run_itsy 0 ?bp bench]
    by blast
  have u1: "builds init (cr_head_sha run_itsy) = None" by (simp add: init_def)
  have "ghwebhook bench (Event (CheckRunEvent run_itsy)) init =
        Inr (init\<lparr>store := (store init)(fresh init \<mapsto>
                    \<lparr>binaryURL = [], sha = cr_head_sha run_itsy, suite = None,
                      runs = [(cr_name run_itsy, run_itsy)]\<rparr>),
               fresh := Suc (fresh init),
               builds := (builds init)(cr_head_sha run_itsy \<mapsto> fresh init),
               buildsCh := buildsCh init @ [fresh init],
               trace := trace init @
                 [Printf ''Github checkrun event for %d, %s''
                    [I (cr_id run_itsy), S (cr_head_sha run_itsy)]]\<rparr>)"
    using u1 run_request_enqueues_only_unknown_sha [of init run_itsy _ _ bench]
    by blast
  then have unknown: "buildsCh (final (ghwebhook bench (Event (CheckRunEvent run_itsy)) init)) = [0]"
    by (simp add: final_def init_def)
  have a1: "Status ci_ok = ''success''" by (simp add: ci_ok_def)
  have a2: "getTinygoBinaryURL bench (BuildNum ci_ok) = Inr ''http://x/bin.tgz''"
    by (simp add: bench_def)
  have a3: "builds ?q (VCSRevision ci_ok) = Some 0" by (simp add: bench_defs code_defs)
  have a4: "store ?q 0 = Some ?bq" by (simp add: bench_defs code_defs)
  have a5: "buildsCh ?q = [0]" by (simp add: bench_defs code_defs)
  have "buildhook bench (Parsed ci_ok) ?q =
        Inr (?q\<lparr>store := (store ?q)(0 \<mapsto> ?bq\<lparr>binaryURL := ''http://x/bin.tgz''\<rparr>),
               buildsCh := buildsCh ?q @ [0],
               trace := trace ?q @
                 [Println [S ''CircleCI buildhook received.''],
                  Printf ''Build Info: %+v\<newline>'' [B ci_ok]]\<rparr>)"
    using a1 a2 a3 a4
      run_request_enqueues_only_unknown_sha [of ?q _ 0 ?bq bench ci_ok "''http://x/bin.tgz''"]
    by blast
  then have ready: "buildsCh (final (buildhook bench (Parsed ci_ok) ?q)) = [0, 0]"
    using a5 by (simp add: final_def)
  show ?thesis using k1 k2 known u1 unknown a1 a2 a3 a4 ready by blast
qed

text \<open>
  C2, as the specification has it, fails. The \<open>Build\<close> of \<open>abc1234def\<close> has been
  through the worker, its ItsyBitsy-M4 run has passed, its \<open>binaryURL\<close> is known and
  the channel is empty. A re-run request for that target then leaves the channel empty:
  the handler itself flashes and tests the board. And the first re-run request, for the
  then unknown sha, did put a \<open>Build\<close> on the channel without any build notification.
\<close>

theorem rerun_of_processed_build_runs_inline:
  "map_option binaryURL (store (final (serve bench [rerun_itsy, artifact, Worker, Worker] init)) 0)
     = Some ''http://x/bin.tgz''
   \<and> PassCheckRun ''abc1234def'' ''itsybitsy-m4'' ''Tests complete.''
       \<in> set (trace (final (serve bench [rerun_itsy, artifact, Worker, Worker] init)))
   \<and> buildsCh (final (serve bench [rerun_itsy, artifact, Worker, Worker] init)) = []
   \<and> buildsCh (final (serve bench [rerun_itsy, artifact, Worker, Worker, rerun_itsy] init)) = []
   \<and> trace (final (serve bench [rerun_itsy, artifact, Worker, Worker, rerun_itsy] init)) =
       trace (final (serve bench [rerun_itsy, artifact, Worker, Worker] init)) @
         [Printf ''Github checkrun event for %d, %s'' [I 41, S ''abc1234def''],
          Printf ''Flashing board %s\<newline>'' [S ''Adafruit ItsyBitsy-M4''],
          Flash itsybitsy ''abc1234def'',
          Sleep 2,
          Printf ''Running tests on board %s\<newline>'' [S ''Adafruit ItsyBitsy-M4''],
          Test itsybitsy,
          PassCheckRun ''abc1234def'' ''itsybitsy-m4'' ''Tests complete.'']
   \<and> buildsCh (final (serve bench [rerun_itsy] init)) = [0]"
  by (simp add: bench_defs code_defs)

subsection \<open>Claims about the index\<close>

text \<open>
  C1. A re-run request for the unknown sha \<open>abc1234def\<close> creates the \<open>Build\<close> at
  address 0, with the requested run, and sends it to the channel. A check-suite event
  for the same sha then stores a new, empty \<open>Build\<close> at address 1 under that sha:
  the index no longer leads to the \<open>Build\<close> that holds the run, while the channel
  still does. The build notification that follows writes its URL to the new \<open>Build\<close>
  only, so the worker receives two different \<open>Build\<close>s for the one sha.
\<close>

theorem check_suite_event_replaces_known_build:
  "builds (final (serve bench [rerun_itsy] init)) ''abc1234def'' = Some 0
   \<and> map_option runs (store (final (serve bench [rerun_itsy] init)) 0)
       = Some [(''itsybitsy-m4'', run_itsy)]
   \<and> builds (final (serve bench [rerun_itsy, commit] init)) ''abc1234def'' = Some 1
   \<and> map_option runs (store (final (serve bench [rerun_itsy, commit] init)) 1) = Some []
   \<and> map_option runs (store (final (serve bench [rerun_itsy, commit] init)) 0)
       = Some [(''itsybitsy-m4'', run_itsy)]
   \<and> buildsCh (final (serve bench [rerun_itsy, commit] init)) = [0]
   \<and> buildsCh (final (serve bench [rerun_itsy, commit, artifact] init)) = [0, 1]
   \<and> map_option binaryURL (store (final (serve bench [rerun_itsy, commit, artifact] init)) 0) = Some []
   \<and> map_option binaryURL (store (final (serve bench [rerun_itsy, commit, artifact] init)) 1)
       = Some ''http://x/bin.tgz''"
  by (simp add: bench_defs code_defs)

subsection \<open>The history of a trace\<close>


section \<open>The interleaved program\<close>

subsection \<open>The sequential schedule is one of the schedules\<close>

lemma step_alive:
  "alive (worker c) \<Longrightarrow> step ev act c =
      (case act of Gh req \<Rightarrow> deliver_gh ev req c | Ci req \<Rightarrow> deliver_ci ev req c
       | WorkerStep \<Rightarrow> worker_step ev c | HandlerStep i \<Rightarrow> handler_step ev i c)"
  by (cases "worker c") (simp_all add: step_def)


lemma steps_append: "steps ev (xs @ ys) c = steps ev ys (steps ev xs c)"
  by (induction xs arbitrary: c) simp_all

lemma step_WorkerStep: "step ev WorkerStep c = worker_step ev c"
  by (cases "worker c") (simp_all add: step_def worker_step_def)

lemma steps_worker: "steps ev (replicate n WorkerStep) c = (worker_step ev ^^ n) c"
  by (induction n arbitrary: c) (simp_all add: step_WorkerStep funpow_swap1)

text \<open>
  Run on its own, the worker goes through one turn of the loop over the runs as
  \<open>processBoardRun\<close> does, through the whole loop as \<open>range_runs\<close> does, and
  through one received \<open>Build\<close> as \<open>processBuild\<close> does.
\<close>

lemma worker_cycle_completes:
  assumes "worker c = InRuns a (r # rs)" and "store (shared c) a = Some build"
  shows "\<exists>n. (worker_step ev ^^ n) c =
           (case processBoardRun ev build (GetBoard ev (cr_name r)) (shared c) of
              Inl (p, s) \<Rightarrow> c\<lparr>shared := s, worker := Crashed p\<rparr>
            | Inr s \<Rightarrow> c\<lparr>shared := s, worker := InRuns a rs\<rparr>)"
proof (cases "GetBoard ev (cr_name r)")
  case None
  have "(worker_step ev ^^ Suc 0) c =
           (case processBoardRun ev build (GetBoard ev (cr_name r)) (shared c) of
              Inl (p, s) \<Rightarrow> c\<lparr>shared := s, worker := Crashed p\<rparr>
            | Inr s \<Rightarrow> c\<lparr>shared := s, worker := InRuns a rs\<rparr>)"
    using assms None by (simp add: worker_step_def begin_cycle_def processBoardRun_def)
  then show ?thesis by blast
next
  case (Some bd)
  obtain fo fe where f: "flash ev bd (sha build) = (fo, fe)" by (cases "flash ev bd (sha build)")
  obtain out te where t: "test ev bd = (out, te)" by (cases "test ev bd")
  let ?c1 = "worker_step ev c"
  have c1: "?c1 = c\<lparr>shared := emit (Flash bd (sha build))
                 (emit (Printf ''Flashing board %s\<newline>'' [S (displayname bd)]) (shared c)),
               worker := InCycle a rs \<lparr>of_build = build, on_board = bd, at_phase = InFlash\<rparr>\<rparr>"
    using assms Some by (simp add: worker_step_def begin_cycle_def)
  show ?thesis
  proof (cases fe)
    case (Some e)
    have "worker_step ev ?c1 =
           (case processBoardRun ev build (GetBoard ev (cr_name r)) (shared c) of
              Inl (p, s) \<Rightarrow> c\<lparr>shared := s, worker := Crashed p\<rparr>
            | Inr s \<Rightarrow> c\<lparr>shared := s, worker := InRuns a rs\<rparr>)"
      unfolding c1 using \<open>GetBoard ev (cr_name r) = Some bd\<close> f Some
      by (simp add: worker_step_def resume_cycle_def processBoardRun_def Let_def)
    then have "(worker_step ev ^^ Suc (Suc 0)) c =
           (case processBoardRun ev build (GetBoard ev (cr_name r)) (shared c) of
              Inl (p, s) \<Rightarrow> c\<lparr>shared := s, worker := Crashed p\<rparr>
            | Inr s \<Rightarrow> c\<lparr>shared := s, worker := InRuns a rs\<rparr>)"
      by simp
    then show ?thesis by blast
  next
    case None
    let ?c2 = "worker_step ev ?c1"
    have c2: "?c2 = c\<lparr>shared := emit (Sleep 2) (shared ?c1),
               worker := InCycle a rs \<lparr>of_build = build, on_board = bd, at_phase = InSleep\<rparr>\<rparr>"
      unfolding c1 using f None by (simp add: worker_step_def resume_cycle_def Let_def)
    let ?c3 = "worker_step ev ?c2"
    have c3: "?c3 = c\<lparr>shared := emit (Test bd)
                 (emit (Printf ''Running tests on board %s\<newline>'' [S (displayname bd)]) (shared ?c2)),
               worker := InCycle a rs \<lparr>of_build = build, on_board = bd, at_phase = InTest\<rparr>\<rparr>"
      unfolding c2 by (simp add: worker_step_def resume_cycle_def Let_def)
    have "worker_step ev ?c3 =
           (case processBoardRun ev build (GetBoard ev (cr_name r)) (shared c) of
              Inl (p, s) \<Rightarrow> c\<lparr>shared := s, worker := Crashed p\<rparr>
            | Inr s \<Rightarrow> c\<lparr>shared := s, worker := InRuns a rs\<rparr>)"
      unfolding c3 c2 c1 using \<open>GetBoard ev (cr_name r) = Some bd\<close> f t None
      by (cases te) (simp_all add: worker_step_def resume_cycle_def processBoardRun_def Let_def)
    then have "(worker_step ev ^^ Suc (Suc (Suc (Suc 0)))) c =
           (case processBoardRun ev build (GetBoard ev (cr_name r)) (shared c) of
              Inl (p, s) \<Rightarrow> c\<lparr>shared := s, worker := Crashed p\<rparr>
            | Inr s \<Rightarrow> c\<lparr>shared := s, worker := InRuns a rs\<rparr>)"
      by simp
    then show ?thesis by blast
  qed
qed

lemma worker_loop_completes:
  assumes "worker c = InRuns a rs" and "store (shared c) a = Some build"
  shows "\<exists>n. (worker_step ev ^^ n) c =
           c\<lparr>shared := final (range_runs ev build rs (shared c)),
             worker := (case panic_of (range_runs ev build rs (shared c)) of
                          None \<Rightarrow> Receiving | Some p \<Rightarrow> Crashed p)\<rparr>"
  using assms
proof (induction rs arbitrary: c)
  case Nil
  then have "(worker_step ev ^^ Suc 0) c =
           c\<lparr>shared := final (range_runs ev build [] (shared c)),
             worker := (case panic_of (range_runs ev build [] (shared c)) of
                          None \<Rightarrow> Receiving | Some p \<Rightarrow> Crashed p)\<rparr>"
    by (simp add: worker_step_def final_def panic_of_def)
  then show ?case by blast
next
  case (Cons r rs)
  from worker_cycle_completes [OF Cons.prems, of ev] obtain n where
    n: "(worker_step ev ^^ n) c =
           (case processBoardRun ev build (GetBoard ev (cr_name r)) (shared c) of
              Inl (p, s) \<Rightarrow> c\<lparr>shared := s, worker := Crashed p\<rparr>
            | Inr s \<Rightarrow> c\<lparr>shared := s, worker := InRuns a rs\<rparr>)" by blast
  show ?case
  proof (cases "processBoardRun ev build (GetBoard ev (cr_name r)) (shared c)")
    case (Inl ps)
    obtain p s where ps: "ps = (p, s)" by (cases ps)
    have "(worker_step ev ^^ n) c =
           c\<lparr>shared := final (range_runs ev build (r # rs) (shared c)),
             worker := (case panic_of (range_runs ev build (r # rs) (shared c)) of
                          None \<Rightarrow> Receiving | Some p \<Rightarrow> Crashed p)\<rparr>"
      using n Inl ps by (simp add: final_def panic_of_def)
    then show ?thesis by blast
  next
    case (Inr s)
    let ?c' = "c\<lparr>shared := s, worker := InRuns a rs\<rparr>"
    obtain t where "final (processBoardRun ev build (GetBoard ev (cr_name r)) (shared c))
                      = (shared c)\<lparr>trace := trace (shared c) @ t\<rparr>"
      using processBoardRun_frame by blast
    then have "store s a = Some build" using Inr Cons.prems(2) by (simp add: final_def)
    then have st: "store (shared ?c') a = Some build" by simp
    have w: "worker ?c' = InRuns a rs" by simp
    from Cons.IH [OF w st] obtain m where
      m: "(worker_step ev ^^ m) ?c' =
           ?c'\<lparr>shared := final (range_runs ev build rs (shared ?c')),
             worker := (case panic_of (range_runs ev build rs (shared ?c')) of
                          None \<Rightarrow> Receiving | Some p \<Rightarrow> Crashed p)\<rparr>" by blast
    have "(worker_step ev ^^ (m + n)) c = (worker_step ev ^^ m) ?c'"
      using n Inr by (simp add: funpow_add)
    also have "\<dots> = c\<lparr>shared := final (range_runs ev build (r # rs) (shared c)),
             worker := (case panic_of (range_runs ev build (r # rs) (shared c)) of
                          None \<Rightarrow> Receiving | Some p \<Rightarrow> Crashed p)\<rparr>"
      using m Inr by simp
    finally show ?thesis by blast
  qed
qed


lemma worker_build_completes:
  assumes "worker c = Receiving" and "buildsCh (shared c) = a # q"
  shows "\<exists>n. shared ((worker_step ev ^^ n) c) = final (processBuild ev a ((shared c)\<lparr>buildsCh := q\<rparr>))
           \<and> worker ((worker_step ev ^^ n) c)
               = (case panic_of (processBuild ev a ((shared c)\<lparr>buildsCh := q\<rparr>)) of
                    None \<Rightarrow> Receiving | Some p \<Rightarrow> Crashed p)
           \<and> inline ((worker_step ev ^^ n) c) = inline c"
proof -
  let ?s = "(shared c)\<lparr>buildsCh := q\<rparr>"
  show ?thesis
  proof (cases "store (shared c) a")
    case None
    then have "shared ((worker_step ev ^^ Suc 0) c) = final (processBuild ev a ?s)
           \<and> worker ((worker_step ev ^^ Suc 0) c)
               = (case panic_of (processBuild ev a ?s) of None \<Rightarrow> Receiving | Some p \<Rightarrow> Crashed p)
           \<and> inline ((worker_step ev ^^ Suc 0) c) = inline c"
      using assms by (simp add: worker_step_def processBuild_def final_def panic_of_def)
    then show ?thesis by blast
  next
    case (Some build)
    then have st: "store ?s a = Some build" by simp
    show ?thesis
    proof (cases "length (sha build) < 7")
      case True
      have "shared ((worker_step ev ^^ Suc 0) c) = final (processBuild ev a ?s)
           \<and> worker ((worker_step ev ^^ Suc 0) c)
               = (case panic_of (processBuild ev a ?s) of None \<Rightarrow> Receiving | Some p \<Rightarrow> Crashed p)
           \<and> inline ((worker_step ev ^^ Suc 0) c) = inline c"
        using assms Some True
        by (simp add: processBuild_short_sha [OF st True] worker_step_def Let_def emit_def
                      final_def panic_of_def debugSkipBinaryInstall_def)
      then show ?thesis by blast
    next
      case False
      then have l: "7 \<le> length (sha build)" by simp
      let ?argv = "[''docker'', ''build'', ''-t'', ''tinygohci:'' @ take 7 (sha build),
                    ''-f'', ''tools/docker/Dockerfile'', ''--build-arg'',
                    ''TINYGO_DOWNLOAD_URL='' @ officialRelease, ''.'']"
      let ?s3 = "?s\<lparr>trace := trace ?s @
                  [Printf ''Starting tests for commit %s\<newline>'' [S (sha build)],
                   StartCheckSuite (sha build),
                   Printf ''Building docker image using TinyGo from %s\<newline>'' [S officialRelease],
                   Exec ?argv]\<rparr>"
      let ?c1 = "worker_step ev c"
      have c1: "?c1 = c\<lparr>shared := ?s3, worker := InDocker a ?argv,
                         dockerlog := dockerlog c @ [Started a]\<rparr>"
        using assms Some False
        by (simp add: worker_step_def Let_def emit_def debugSkipBinaryInstall_def)
      obtain out e where co: "combinedOutput ev ?argv = (out, e)"
        by (cases "combinedOutput ev ?argv")
      show ?thesis
      proof (cases e)
        case (Some err)
        with co have cf: "combinedOutput ev ?argv = (out, Some err)" by simp
        have "shared (worker_step ev ?c1) = final (processBuild ev a ?s)
           \<and> worker (worker_step ev ?c1)
               = (case panic_of (processBuild ev a ?s) of None \<Rightarrow> Receiving | Some p \<Rightarrow> Crashed p)
           \<and> inline (worker_step ev ?c1) = inline c"
          unfolding c1 using cf \<open>store (shared c) a = Some build\<close>
          by (simp add: processBuild_docker_failed [OF st l cf] worker_step_def emit_def
                        final_def panic_of_def)
        then have "shared ((worker_step ev ^^ Suc (Suc 0)) c) = final (processBuild ev a ?s)
           \<and> worker ((worker_step ev ^^ Suc (Suc 0)) c)
               = (case panic_of (processBuild ev a ?s) of None \<Rightarrow> Receiving | Some p \<Rightarrow> Crashed p)
           \<and> inline ((worker_step ev ^^ Suc (Suc 0)) c) = inline c"
          by simp
        then show ?thesis by blast
      next
        case None
        with co have ck: "combinedOutput ev ?argv = (out, None)" by simp
        let ?s5 = "?s\<lparr>trace := trace ?s @
                  [Printf ''Starting tests for commit %s\<newline>'' [S (sha build)],
                   StartCheckSuite (sha build),
                   Printf ''Building docker image using TinyGo from %s\<newline>'' [S officialRelease],
                   Exec ?argv,
                   Printf ''Running checks for commit %s\<newline>'' [S (sha build)]]\<rparr>"
        let ?c2 = "c\<lparr>shared := ?s5, worker := InRuns a (map snd (runs build)),
                     dockerlog := dockerlog c @ [Started a, Returned a]\<rparr>"
        have c2: "worker_step ev ?c1 = ?c2"
          unfolding c1 using ck \<open>store (shared c) a = Some build\<close>
          by (simp add: worker_step_def emit_def)
        have w2: "worker ?c2 = InRuns a (map snd (runs build))" by simp
        have st2: "store (shared ?c2) a = Some build" using \<open>store (shared c) a = Some build\<close> by simp
        from worker_loop_completes [OF w2 st2, of ev] obtain m where
          m: "(worker_step ev ^^ m) ?c2 =
               ?c2\<lparr>shared := final (range_runs ev build (map snd (runs build)) (shared ?c2)),
                 worker := (case panic_of (range_runs ev build (map snd (runs build)) (shared ?c2)) of
                              None \<Rightarrow> Receiving | Some p \<Rightarrow> Crashed p)\<rparr>" by blast
        have two: "(worker_step ev ^^ Suc (Suc 0)) c = ?c2" using c2 by simp
        have "(worker_step ev ^^ (m + Suc (Suc 0))) c = (worker_step ev ^^ m) ?c2"
          using two by (simp only: funpow_add o_apply)
        then have "shared ((worker_step ev ^^ (m + Suc (Suc 0))) c) = final (processBuild ev a ?s)
           \<and> worker ((worker_step ev ^^ (m + Suc (Suc 0))) c)
               = (case panic_of (processBuild ev a ?s) of None \<Rightarrow> Receiving | Some p \<Rightarrow> Crashed p)
           \<and> inline ((worker_step ev ^^ (m + Suc (Suc 0))) c) = inline c"
          using m by (simp add: processBuild_docker_ok [OF st l ck])
        then show ?thesis by blast
      qed
    qed
  qed
qed

lemma handler_completes:
  assumes "inline c = []"
  shows "\<exists>n. (handler_step ev 0 ^^ n) (deliver_gh ev req c)
              = c\<lparr>shared := final (ghwebhook ev req (shared c))\<rparr>"
proof (cases "\<exists>cr a build bd. req = Event (CheckRunEvent cr) \<and> builds (shared c) (cr_head_sha cr) = Some a
                 \<and> store (shared c) a = Some build \<and> GetBoard ev (cr_name cr) = Some bd")
  case False
  then have "(handler_step ev 0 ^^ 0) (deliver_gh ev req c)
              = c\<lparr>shared := final (ghwebhook ev req (shared c))\<rparr>"
    by (auto simp: deliver_gh_def ghwebhook_def begin_cycle_def processBoardRun_def emit_def
                   final_def Let_def
             split: gh_request.splits gh_event.splits option.splits)
  then show ?thesis by blast
next
  case True
  then obtain cr a build bd where req: "req = Event (CheckRunEvent cr)"
    and known: "builds (shared c) (cr_head_sha cr) = Some a"
    and st: "store (shared c) a = Some build"
    and board: "GetBoard ev (cr_name cr) = Some bd" by blast
  let ?s1 = "(shared c)\<lparr>trace := trace (shared c) @
                 [Printf ''Github checkrun event for %d, %s'' [I (cr_id cr), S (cr_head_sha cr)]]\<rparr>"
  have gh: "ghwebhook ev req (shared c) = processBoardRun ev build (Some bd) ?s1"
    using req known st board by (simp add: ghwebhook_def emit_def Let_def)
  let ?c1 = "deliver_gh ev req c"
  have c1: "?c1 = c\<lparr>shared := emit (Flash bd (sha build))
                 (emit (Printf ''Flashing board %s\<newline>'' [S (displayname bd)]) ?s1),
               inline := [\<lparr>of_build = build, on_board = bd, at_phase = InFlash\<rparr>]\<rparr>"
    using req known st board assms by (simp add: deliver_gh_def begin_cycle_def emit_def Let_def)
  obtain fo fe where f: "flash ev bd (sha build) = (fo, fe)" by (cases "flash ev bd (sha build)")
  obtain out te where t: "test ev bd = (out, te)" by (cases "test ev bd")
  show ?thesis
  proof (cases fe)
    case (Some e)
    have "handler_step ev 0 ?c1 = c\<lparr>shared := final (ghwebhook ev req (shared c))\<rparr>"
      unfolding c1 gh using f Some assms
      by (cases c)
         (simp add: handler_step_def resume_cycle_def processBoardRun_def emit_def final_def Let_def)
    then have "(handler_step ev 0 ^^ Suc 0) ?c1 = c\<lparr>shared := final (ghwebhook ev req (shared c))\<rparr>"
      by simp
    then show ?thesis by blast
  next
    case None
    let ?c2 = "handler_step ev 0 ?c1"
    have c2: "?c2 = c\<lparr>shared := emit (Sleep 2) (shared ?c1),
               inline := [\<lparr>of_build = build, on_board = bd, at_phase = InSleep\<rparr>]\<rparr>"
      unfolding c1 using f None by (simp add: handler_step_def resume_cycle_def Let_def)
    let ?c3 = "handler_step ev 0 ?c2"
    have c3: "?c3 = c\<lparr>shared := emit (Test bd)
                 (emit (Printf ''Running tests on board %s\<newline>'' [S (displayname bd)]) (shared ?c2)),
               inline := [\<lparr>of_build = build, on_board = bd, at_phase = InTest\<rparr>]\<rparr>"
      unfolding c2 by (simp add: handler_step_def resume_cycle_def Let_def)
    have "handler_step ev 0 ?c3 = c\<lparr>shared := final (ghwebhook ev req (shared c))\<rparr>"
      unfolding c3 c2 c1 gh using f t None assms
      by (cases c; cases te)
         (simp_all add: handler_step_def resume_cycle_def processBoardRun_def emit_def final_def Let_def)
    then have "(handler_step ev 0 ^^ Suc (Suc (Suc 0))) ?c1
                 = c\<lparr>shared := final (ghwebhook ev req (shared c))\<rparr>"
      by simp
    then show ?thesis by blast
  qed
qed

lemma steps_handler:
  assumes "alive (worker c)"
  shows "steps ev (replicate n (HandlerStep 0)) c = (handler_step ev 0 ^^ n) c"
  using assms
proof (induction n arbitrary: c)
  case 0
  show ?case by simp
next
  case (Suc n)
  have "worker (handler_step ev 0 c) = worker c"
    by (simp add: handler_step_def split: prod.splits option.splits)
  then have "alive (worker (handler_step ev 0 c))" using Suc.prems by simp
  from Suc.IH [OF this] show ?case using Suc.prems by (simp add: step_alive funpow_swap1)
qed

text \<open>
  Every run of \<open>serve\<close> is a run of the stepped program: the schedule that lets each
  handler and each iteration of the worker finish before anything else happens.
\<close>

lemma serve_is_a_schedule:
  assumes "worker c = Receiving" and "inline c = []"
  shows "\<exists>acts. shared (steps ev acts c) = final (serve ev es (shared c))
           \<and> worker (steps ev acts c)
               = (case panic_of (serve ev es (shared c)) of None \<Rightarrow> Receiving | Some p \<Rightarrow> Crashed p)
           \<and> inline (steps ev acts c) = []"
  using assms
proof (induction es arbitrary: c)
  case Nil
  have "shared (steps ev [] c) = final (serve ev [] (shared c))
           \<and> worker (steps ev [] c)
               = (case panic_of (serve ev [] (shared c)) of None \<Rightarrow> Receiving | Some p \<Rightarrow> Crashed p)
           \<and> inline (steps ev [] c) = []"
    using Nil by (simp add: final_def panic_of_def)
  then show ?case by blast
next
  case (Cons e es)
  have alive: "alive (worker c)" using Cons.prems by simp
  show ?case
  proof (cases e)
    case (Webhook r)
    from handler_completes [OF Cons.prems(2), of ev r] obtain n where
      n: "(handler_step ev 0 ^^ n) (deliver_gh ev r c)
              = c\<lparr>shared := final (ghwebhook ev r (shared c))\<rparr>" by blast
    let ?c' = "c\<lparr>shared := final (ghwebhook ev r (shared c))\<rparr>"
    have "worker (deliver_gh ev r c) = worker c"
      by (simp add: deliver_gh_def Let_def
               split: gh_request.splits gh_event.splits option.splits sum.splits prod.splits)
    then have al: "alive (worker (deliver_gh ev r c))" using alive by simp
    have first: "steps ev (Gh r # replicate n (HandlerStep 0)) c = ?c'"
      using n steps_handler [OF al, of ev n] alive by (simp add: step_alive)
    have "worker ?c' = Receiving" "inline ?c' = []" using Cons.prems by simp_all
    from Cons.IH [OF this] obtain acts where
      acts: "shared (steps ev acts ?c') = final (serve ev es (shared ?c'))
           \<and> worker (steps ev acts ?c')
               = (case panic_of (serve ev es (shared ?c')) of None \<Rightarrow> Receiving | Some p \<Rightarrow> Crashed p)
           \<and> inline (steps ev acts ?c') = []" by blast
    have "steps ev ((Gh r # replicate n (HandlerStep 0)) @ acts) c = steps ev acts ?c'"
      using first by (simp only: steps_append)
    then show ?thesis using acts Webhook by (metis serve.simps(2) server.select_convs(1) server.surjective server.update_convs(1))
  next
    case (Buildhook r)
    let ?c' = "c\<lparr>shared := final (buildhook ev r (shared c))\<rparr>"
    have first: "steps ev [Ci r] c = ?c'" using alive by (simp add: step_alive deliver_ci_def)
    have "worker ?c' = Receiving" "inline ?c' = []" using Cons.prems by simp_all
    from Cons.IH [OF this] obtain acts where
      acts: "shared (steps ev acts ?c') = final (serve ev es (shared ?c'))
           \<and> worker (steps ev acts ?c')
               = (case panic_of (serve ev es (shared ?c')) of None \<Rightarrow> Receiving | Some p \<Rightarrow> Crashed p)
           \<and> inline (steps ev acts ?c') = []" by blast
    have "steps ev ([Ci r] @ acts) c = steps ev acts ?c'"
      using first by (simp only: steps_append)
    then show ?thesis using acts Buildhook by (metis serve.simps(3) server.select_convs(1) server.surjective server.update_convs(1))
  next
    case Worker
    show ?thesis
    proof (cases "buildsCh (shared c)")
      case Nil
      from Cons.IH [OF Cons.prems] obtain acts where
        acts: "shared (steps ev acts c) = final (serve ev es (shared c))
           \<and> worker (steps ev acts c)
               = (case panic_of (serve ev es (shared c)) of None \<Rightarrow> Receiving | Some p \<Rightarrow> Crashed p)
           \<and> inline (steps ev acts c) = []" by blast
      have "serve ev (e # es) (shared c) = serve ev es (shared c)" using Worker Nil by simp
      then show ?thesis using acts by metis
    next
      case (Cons a q)
      from worker_build_completes [OF Cons.prems(1) Cons, of ev] obtain n where
        n: "shared ((worker_step ev ^^ n) c) = final (processBuild ev a ((shared c)\<lparr>buildsCh := q\<rparr>))"
          "worker ((worker_step ev ^^ n) c)
               = (case panic_of (processBuild ev a ((shared c)\<lparr>buildsCh := q\<rparr>)) of
                    None \<Rightarrow> Receiving | Some p \<Rightarrow> Crashed p)"
          "inline ((worker_step ev ^^ n) c) = inline c" by blast+
      let ?c' = "(worker_step ev ^^ n) c"
      have first: "steps ev (replicate n WorkerStep) c = ?c'" by (rule steps_worker)
      show ?thesis
      proof (cases "processBuild ev a ((shared c)\<lparr>buildsCh := q\<rparr>)")
        case (Inl ps)
        obtain p s where ps: "ps = (p, s)" by (cases ps)
        have sv: "serve ev (e # es) (shared c) = Inl (p, s)"
          using Worker Cons Inl ps by simp
        have "shared ?c' = s" "worker ?c' = Crashed p" "inline ?c' = []"
          using n Inl ps Cons.prems by (simp_all add: final_def panic_of_def)
        then have "shared (steps ev (replicate n WorkerStep) c) = final (serve ev (e # es) (shared c))
           \<and> worker (steps ev (replicate n WorkerStep) c)
               = (case panic_of (serve ev (e # es) (shared c)) of None \<Rightarrow> Receiving | Some p \<Rightarrow> Crashed p)
           \<and> inline (steps ev (replicate n WorkerStep) c) = []"
          unfolding first sv by (simp add: final_def panic_of_def)
        then show ?thesis by blast
      next
        case (Inr s)
        have sv: "serve ev (e # es) (shared c) = serve ev es s"
          using Worker Cons Inr by simp
        have c': "shared ?c' = s" "worker ?c' = Receiving" "inline ?c' = []"
          using n Inr Cons.prems by (simp_all add: final_def panic_of_def)
        from Cons.IH [OF c'(2) c'(3)] obtain acts where
          acts: "shared (steps ev acts ?c') = final (serve ev es (shared ?c'))
             \<and> worker (steps ev acts ?c')
                 = (case panic_of (serve ev es (shared ?c')) of None \<Rightarrow> Receiving | Some p \<Rightarrow> Crashed p)
             \<and> inline (steps ev acts ?c') = []" by blast
        have "steps ev (replicate n WorkerStep @ acts) c = steps ev acts ?c'"
          using first by (simp only: steps_append)
        then show ?thesis using acts sv c'(1) by metis
      qed
    qed
  qed
qed

subsection \<open>Claims about docker builds that overlap\<close>



























subsection \<open>Claims about the status of a run under every schedule\<close>























end
